theory Spec2Isabelle
  imports Complex_Main "HOL-Library.Word" "HOL-Library.Log_Nat"
begin

section \<open>JavaScript values used by the oracle producer\<close>

text \<open>
  The producer (\<^verbatim>\<open>producer/src/index.ts\<close>) and the randomness feeder are TypeScript
  programs. Their values of type \<^verbatim>\<open>number\<close> are IEEE binary64 doubles. A finite double is
  a rational, so a \<^verbatim>\<open>number\<close> is modelled as \<open>NaN\<close>, an infinity, or a rational that is
  a binary64 value (the two zeros are identified). An exception thrown by the code or by
  the runtime is a value of \<open>js_error\<close>.
\<close>

datatype js_error = TypeError | RangeError | Error string

datatype number = NaN | PosInfinity | NegInfinity | Fin rat

subsection \<open>Rounding a rational to binary64\<close>

text \<open>Round to the nearest integer, a tie going to the even neighbour.\<close>

definition round_half_even :: "rat \<Rightarrow> int" where
  "round_half_even q =
     (let f = \<lfloor>q\<rfloor>; d = q - of_int f
      in if d < 1 / 2 then f else if 1 / 2 < d then f + 1 else if even f then f else f + 1)"

text \<open>\<open>ilog2 x\<close> is the binary exponent of a positive rational: \<open>2 powi ilog2 x \<le> x < 2 powi (ilog2 x + 1)\<close>.\<close>

definition ilog2 :: "rat \<Rightarrow> int" where
  "ilog2 x =
     (let (p, q) = quotient_of x; d = bitlen p - bitlen q
      in if 2 powi d \<le> x then d else d - 1)"

text \<open>
  The binary64 value nearest to \<open>x\<close> (53 significant bits, ties to even, exponents below
  \<open>-1022\<close> sharing the subnormal spacing), before the overflow test.
\<close>

definition round_double :: "rat \<Rightarrow> rat" where
  "round_double x =
     (if x = 0 then 0
      else let a = \<bar>x\<bar>; e = max (ilog2 a) (- 1022); ulp = 2 powi (e - 52)
           in sgn x * of_int (round_half_even (a / ulp)) * ulp)"

text \<open>The Number value of a mathematical value: rounding, then overflow to an infinity.\<close>

definition to_number :: "rat \<Rightarrow> number" where
  "to_number x =
     (let y = round_double x
      in if 2 ^ 1024 \<le> y then PosInfinity else if y \<le> - (2 ^ 1024) then NegInfinity else Fin y)"

definition is_double :: "rat \<Rightarrow> bool" where
  "is_double x \<longleftrightarrow> round_double x = x \<and> \<bar>x\<bar> < 2 ^ 1024"

subsection \<open>\<^verbatim>\<open>toString\<close> of an integer and \<^verbatim>\<open>parseInt\<close>\<close>

text \<open>
  A JavaScript string is a sequence of UTF-16 code units. \<open>js\<close> writes a literal of
  Latin-1 characters as such a string.
\<close>

type_synonym code_unit = "16 word"

type_synonym js_string = "code_unit list"

definition js :: "string \<Rightarrow> js_string" where
  "js s = map of_char s"

text \<open>
  \<^verbatim>\<open>toString()\<close> of a \<^verbatim>\<open>u8\<close> element and of an unsigned BigInt is the decimal
  numeral without leading zeros (the digits are the code units 48 to 57). Integers are
  of type \<open>int\<close>; the function is used on non-negative values only.
\<close>

function toString_uint :: "int \<Rightarrow> js_string" where
  "toString_uint n =
     (if n < 10 then [of_int (48 + n)]
      else toString_uint (n div 10) @ [of_int (48 + n mod 10)])"
  by pat_completeness auto
termination
proof (relation "measure nat")
  show "wf (measure nat)" by simp
next
  fix n :: int
  assume "\<not> n < 10"
  then have "n div 10 < n" by linarith
  with \<open>\<not> n < 10\<close> show "(n div 10, n) \<in> measure nat" by simp
qed

declare toString_uint.simps [simp del]

text \<open>
  \<^verbatim>\<open>parseInt(string)\<close> with no radix argument, after ECMAScript: leading white space is
  dropped, one sign is read, a prefix \<^verbatim>\<open>0x\<close> or \<^verbatim>\<open>0X\<close> selects radix 16 (radix 10
  otherwise), the longest run of digits of that radix is the numeral, an empty run gives
  \<open>NaN\<close>, and the value is converted to a Number.

  The white space that is dropped is the ECMAScript set: the code units of WhiteSpace
  (TAB \<open>0x09\<close>, VT \<open>0x0B\<close>, FF \<open>0x0C\<close>, the byte order mark \<open>0xFEFF\<close>, and the space
  separators \<open>0x20\<close>, \<open>0xA0\<close>, \<open>0x1680\<close>, \<open>0x2000\<close> to \<open>0x200A\<close>, \<open>0x202F\<close>,
  \<open>0x205F\<close>, \<open>0x3000\<close>) and of LineTerminator (LF \<open>0x0A\<close>, CR \<open>0x0D\<close>, \<open>0x2028\<close>,
  \<open>0x2029\<close>).
\<close>

definition is_whitespace :: "code_unit \<Rightarrow> bool" where
  "is_whitespace c \<longleftrightarrow>
     (let k = uint c
      in k \<in> set [0x09, 0x0A, 0x0B, 0x0C, 0x0D, 0x20, 0xA0, 0x1680, 0x2028, 0x2029, 0x202F,
                    0x205F, 0x3000, 0xFEFF]
         \<or> (0x2000 \<le> k \<and> k \<le> 0x200A))"

definition digit_value :: "code_unit \<Rightarrow> int option" where
  "digit_value c =
     (let k = uint c
      in if 48 \<le> k \<and> k \<le> 57 then Some (k - 48)
         else if 97 \<le> k \<and> k \<le> 122 then Some (k - 87)
         else if 65 \<le> k \<and> k \<le> 90 then Some (k - 55)
         else None)"

definition is_radix_digit :: "int \<Rightarrow> code_unit \<Rightarrow> bool" where
  "is_radix_digit R c = (case digit_value c of None \<Rightarrow> False | Some d \<Rightarrow> d < R)"

definition digits_value :: "int \<Rightarrow> js_string \<Rightarrow> int" where
  "digits_value R Z = foldl (\<lambda>acc c. acc * R + (case digit_value c of None \<Rightarrow> 0 | Some d \<Rightarrow> d)) 0 Z"

definition parseInt :: "js_string \<Rightarrow> number" where
  "parseInt inputString =
     (let S = dropWhile is_whitespace inputString;
          sign = (if S \<noteq> [] \<and> hd S = of_char CHR ''-'' then - 1 else 1 :: int);
          S1 = (if S \<noteq> [] \<and> (hd S = of_char CHR ''+'' \<or> hd S = of_char CHR ''-'') then tl S else S);
          hex = (2 \<le> length S1 \<and> (take 2 S1 = js ''0x'' \<or> take 2 S1 = js ''0X''));
          R = (if hex then 16 else 10);
          S2 = (if hex then drop 2 S1 else S1);
          Z = takeWhile (is_radix_digit R) S2
      in if Z = [] then NaN else to_number (of_int (sign * digits_value R Z)))"

section \<open>The live request decoder\<close>

text \<open>
  The handler of \<^verbatim>\<open>UserMessageSent\<close> (index.ts, lines 123 to 158) receives the payload
  as a sequence of bytes. \<^verbatim>\<open>slice(start, end)\<close> and \<^verbatim>\<open>slice(start)\<close> with
  non-negative arguments never fail: they return what is there.
\<close>

definition slice :: "nat \<Rightarrow> nat \<Rightarrow> 'a list \<Rightarrow> 'a list" where
  "slice start end xs = take (end - start) (drop start xs)"

definition slice_from :: "nat \<Rightarrow> 'a list \<Rightarrow> 'a list" where
  "slice_from start xs = drop start xs"

text \<open>\<^verbatim>\<open>parseInt(value.toString())\<close> on one element of the payload.\<close>

definition parse_element :: "8 word \<Rightarrow> number" where
  "parse_element v = parseInt (toString_uint (uint v))"

text \<open>\<^verbatim>\<open>Buffer.from(array)\<close> stores each number as a byte (truncated, modulo 256).\<close>

definition byte_of_number :: "number \<Rightarrow> 8 word" where
  "byte_of_number x = (case x of Fin r \<Rightarrow> of_int (if 0 \<le> r then \<lfloor>r\<rfloor> else \<lceil>r\<rceil>) | _ \<Rightarrow> 0)"

definition Buffer_from :: "number list \<Rightarrow> 8 word list" where
  "Buffer_from xs = map byte_of_number xs"

text \<open>
  \<^verbatim>\<open>buffer.readBigUInt64LE(offset)\<close> throws a \<^verbatim>\<open>RangeError\<close> unless eight bytes are
  there; otherwise it is the little-endian value of these eight bytes.
\<close>

definition le_value :: "8 word list \<Rightarrow> int" where
  "le_value bs = foldr (\<lambda>b acc. uint b + 256 * acc) bs 0"

definition readBigUInt64LE :: "8 word list \<Rightarrow> nat \<Rightarrow> js_error + int" where
  "readBigUInt64LE buffer offset =
     (if length buffer < offset + 8 then Inl RangeError
      else Inr (le_value (take 8 (drop offset buffer))))"

record PendingRequest =
  req_id :: number
  req_caller :: "number list"

text \<open>
  Lines 134 to 144: the discriminant test and the extraction of \<^verbatim>\<open>id\<close> and
  \<^verbatim>\<open>caller\<close>. \<open>Inr None\<close> is the handler doing nothing (another discriminant);
  \<open>Inl e\<close> is the exception \<open>e\<close> leaving the handler. On an empty payload
  \<^verbatim>\<open>payloadType[0]\<close> is \<^verbatim>\<open>undefined\<close> and \<^verbatim>\<open>.toString()\<close> throws a TypeError.
\<close>

definition decode_request :: "8 word list \<Rightarrow> js_error + PendingRequest option" where
  "decode_request payload =
     (let payloadType = slice 0 1 payload
      in case payloadType of
           [] \<Rightarrow> Inl TypeError
         | t # _ \<Rightarrow>
             if parse_element t = Fin 0 then
               (let payloadId = slice 1 17 payload;
                    buffer = Buffer_from (map parse_element payloadId)
                in case readBigUInt64LE buffer 0 of
                     Inl e \<Rightarrow> Inl e
                   | Inr big \<Rightarrow>
                       (let id' = parseInt (toString_uint big);
                            payloadCaller = slice_from 17 payload;
                            caller = map parse_element payloadCaller
                        in Inr (Some \<lparr>req_id = id', req_caller = caller\<rparr>)))
             else Inr None)"

text \<open>
  The encoding of an id that the decoder reads back, after the layout of the payload:
  sixteen bytes, the 64-bit id little-endian in the low eight, zero in the high eight.
  \<open>le_bytes k n\<close> are the \<open>k\<close> low bytes of \<open>n\<close>, least significant first.
\<close>

primrec le_bytes :: "nat \<Rightarrow> int \<Rightarrow> 8 word list" where
  "le_bytes 0 n = []"
| "le_bytes (Suc k) n = of_int n # le_bytes k (n div 256)"

definition spec_encode_id :: "int \<Rightarrow> 8 word list" where
  "spec_encode_id n = le_bytes 8 n @ replicate 8 0"

section \<open>The value producer\<close>

text \<open>
  \<^verbatim>\<open>getRandomNumber(max) = Math.floor(Math.random() * max)\<close>. The second argument is the
  double that this call of \<^verbatim>\<open>Math.random()\<close> returned: a binary64 value \<open>r\<close> with
  \<open>0 \<le> r < 1\<close>. The product of two doubles is the exact product rounded to binary64.
\<close>

definition unit_double :: "rat \<Rightarrow> bool" where
  "unit_double r \<longleftrightarrow> is_double r \<and> 0 \<le> r \<and> r < 1"

definition getRandomNumber :: "rat \<Rightarrow> rat \<Rightarrow> int" where
  "getRandomNumber max' r = \<lfloor>round_double (r * max')\<rfloor>"

section \<open>Effects: calls to the node, console lines, exceptions\<close>

type_synonym hex = string

type_synonym metadata = string

record Random =
  randomness :: "string \<times> string"
  signature :: string
  prevSignature :: string

datatype action = UpdateValue number int | SetRandomValue number Random

record message =
  destination :: hex
  msg_payload :: hex
  gasLimit :: int
  msg_value :: int

record tx_event =
  isError :: bool

text \<open>The calls that leave the program, with the arguments that matter.\<close>

datatype call =
    Call_programState_read
  | Call_getWasmMetadata
  | Call_create action
  | Call_decodeAddress
  | Call_calculateGas hex hex
  | Call_send message
  | Call_signAndSend message
  | Call_fetchRandomValue

text \<open>
  The lines written with \<^verbatim>\<open>console.log\<close>, one constructor for each template of the
  two programs, with the interpolated values as arguments.
\<close>

datatype log_line =
    Log_update_value number int
  | Log_failed
  | Log_new_request
  | Log_from string
  | Log_to string
  | Log_id number
  | Log_caller "number list"
  | Log_update_random number Random
  | Log_failed_with js_error
  | Log_new_tick number

datatype effect = Called call | Logged log_line

text \<open>
  A computation is the sequence of its effects and its completion: \<open>Inl e\<close> when it
  throws \<open>e\<close> (an \<^verbatim>\<open>async\<close> function: when its promise rejects with \<open>e\<close>), \<open>Inr v\<close>
  when it returns \<open>v\<close>. \<open>then_io\<close> is sequencing (and \<^verbatim>\<open>await\<close>), \<open>try_catch\<close> is
  \<^verbatim>\<open>try { ... } catch (error) { ... }\<close>.
\<close>

type_synonym 'a io = "effect list \<times> (js_error + 'a)"

definition return_io :: "'a \<Rightarrow> 'a io" where
  "return_io v = ([], Inr v)"

definition ext_call :: "call \<Rightarrow> js_error + 'a \<Rightarrow> 'a io" where
  "ext_call c r = ([Called c], r)"

definition console_log :: "log_line \<Rightarrow> unit io" where
  "console_log l = ([Logged l], Inr ())"

definition then_io :: "'a io \<Rightarrow> ('a \<Rightarrow> 'b io) \<Rightarrow> 'b io" where
  "then_io m k =
     (case m of
        (t, Inl e) \<Rightarrow> (t, Inl e)
      | (t, Inr v) \<Rightarrow> (case k v of (t', r) \<Rightarrow> (t @ t', r)))"

definition try_catch :: "'a io \<Rightarrow> (js_error \<Rightarrow> 'a io) \<Rightarrow> 'a io" where
  "try_catch m h =
     (case m of
        (t, Inl e) \<Rightarrow> (case h e of (t', r) \<Rightarrow> (t @ t', r))
      | (t, Inr v) \<Rightarrow> (t, Inr v))"

section \<open>The update submitter\<close>

text \<open>
  What the node, the metadata loader and the keyring answer to the calls of one
  submission. \<open>signAndSend\<close> is \<^verbatim>\<open>extrinsic.signAndSend(KEYRING, statusCb)\<close> of the
  polkadot-js API: \<open>Inl e\<close> when its promise rejects (signing or submitting failed),
  \<open>Inr events\<close> when it resolves (to the unsubscribe function), \<open>events\<close> being the
  status updates that the subscription then hands to the status callback, one
  invocation each. These invocations are made by the subscription, not inside the
  \<^verbatim>\<open>try\<close> block of \<^verbatim>\<open>updateOracleValue\<close>: what the callback throws is thrown there.
\<close>

record node =
  getWasmMetadata :: "js_error + metadata"
  CreateType_create :: "metadata \<Rightarrow> action \<Rightarrow> js_error + hex"
  decodeAddress :: "js_error + hex"
  calculateGas_handle :: "hex \<Rightarrow> hex \<Rightarrow> js_error + int"
  message_send :: "message \<Rightarrow> js_error + message"
  signAndSend :: "message \<Rightarrow> js_error + tx_event list"

record OracleUpdateValue =
  upd_id :: number
  upd_value :: int

definition ORACLE_ADDRESS :: hex where
  "ORACLE_ADDRESS = ''0x''"

text \<open>The steps from the \<^verbatim>\<open>try\<close> block shared by both programs, after the encoding.\<close>

definition send_action :: "node \<Rightarrow> hex \<Rightarrow> metadata \<Rightarrow> action \<Rightarrow> tx_event list io" where
  "send_action env oracle_address oracleMeta a =
     then_io (ext_call (Call_create a) (CreateType_create env oracleMeta a)) (\<lambda>payload.
     then_io (ext_call Call_decodeAddress (decodeAddress env)) (\<lambda>source.
     then_io (ext_call (Call_calculateGas source payload) (calculateGas_handle env source payload)) (\<lambda>min_limit.
     let m = \<lparr>destination = oracle_address, msg_payload = payload, gasLimit = min_limit, msg_value = 0\<rparr>
     in then_io (ext_call (Call_send m) (message_send env m)) (\<lambda>extrinsic.
        ext_call (Call_signAndSend extrinsic) (signAndSend env extrinsic)))))"

text \<open>index.ts, lines 49 to 93. The \<^verbatim>\<open>try\<close> block, with the status events as its value:\<close>

definition submit_body :: "node \<Rightarrow> OracleUpdateValue \<Rightarrow> tx_event list io" where
  "submit_body env item =
     then_io (ext_call Call_getWasmMetadata (getWasmMetadata env)) (\<lambda>oracleMeta.
       send_action env ORACLE_ADDRESS oracleMeta (UpdateValue (upd_id item) (upd_value item)))"

text \<open>The status callback (lines 83 to 89), run once for each status event:\<close>

definition status_callback :: "OracleUpdateValue \<Rightarrow> tx_event \<Rightarrow> unit io" where
  "status_callback item event =
     (if isError event then ([], Inl (Error ''Can't send tx''))
      else console_log (Log_update_value (upd_id item) (upd_value item)))"

text \<open>The function itself: its effects until its promise settles, and how it settles.\<close>

definition updateOracleValue :: "node \<Rightarrow> OracleUpdateValue \<Rightarrow> unit io" where
  "updateOracleValue env item =
     try_catch (then_io (submit_body env item) (\<lambda>_. return_io ()))
       (\<lambda>error. console_log Log_failed)"

text \<open>The invocations of the status callback that the subscription makes.\<close>

definition status_runs :: "node \<Rightarrow> OracleUpdateValue \<Rightarrow> unit io list" where
  "status_runs env item =
     (case snd (submit_body env item) of
        Inl e \<Rightarrow> []
      | Inr events \<Rightarrow> map (status_callback item) events)"

definition is_gas_estimation :: "effect \<Rightarrow> bool" where
  "is_gas_estimation x = (case x of Called (Call_calculateGas s p) \<Rightarrow> True | _ \<Rightarrow> False)"

definition is_broadcast :: "effect \<Rightarrow> bool" where
  "is_broadcast x =
     (case x of Called (Call_send m) \<Rightarrow> True | Called (Call_signAndSend m) \<Rightarrow> True | _ \<Rightarrow> False)"

subsection \<open>The submitter of the randomness feeder\<close>

text \<open>
  The second program (lines 29 to 80) sends \<^verbatim>\<open>SetRandomValue\<close>; its oracle address comes
  from the environment of the process. Its \<^verbatim>\<open>catch\<close> prints the error.
\<close>

definition feeder_body :: "node \<Rightarrow> hex \<Rightarrow> number \<times> Random \<Rightarrow> tx_event list io" where
  "feeder_body env oracle_address data =
     (case data of (round', random) \<Rightarrow>
        then_io (ext_call Call_getWasmMetadata (getWasmMetadata env)) (\<lambda>oracleMeta.
          send_action env oracle_address oracleMeta
            (SetRandomValue round'
               \<lparr>randomness = (fst (randomness random), snd (randomness random)),
                signature = signature random, prevSignature = prevSignature random\<rparr>)))"

definition feeder_status_callback :: "number \<times> Random \<Rightarrow> tx_event \<Rightarrow> unit io" where
  "feeder_status_callback data event =
     (if isError event then ([], Inl (Error ''Can't send tx''))
      else console_log (Log_update_random (fst data) (snd data)))"

definition feeder_updateOracleValue :: "node \<Rightarrow> hex \<Rightarrow> number \<times> Random \<Rightarrow> unit io" where
  "feeder_updateOracleValue env oracle_address data =
     try_catch (then_io (feeder_body env oracle_address data) (\<lambda>_. return_io ()))
       (\<lambda>error. console_log (Log_failed_with error))"

definition feeder_status_runs :: "node \<Rightarrow> hex \<Rightarrow> number \<times> Random \<Rightarrow> unit io list" where
  "feeder_status_runs env oracle_address data =
     (case snd (feeder_body env oracle_address data) of
        Inl e \<Rightarrow> []
      | Inr events \<Rightarrow> map (feeder_status_callback data) events)"

text \<open>
  One run of the callback given to \<^verbatim>\<open>setInterval\<close> (lines 93 to 98);
  \<open>fetched\<close> is the settlement of \<^verbatim>\<open>fetchRandomValue()\<close> on this tick. The callback has
  no \<^verbatim>\<open>try\<close>: \<open>Inl e\<close> as its completion is its promise rejecting, with nobody awaiting
  it.
\<close>

definition tick :: "node \<Rightarrow> hex \<Rightarrow> js_error + number \<times> Random \<Rightarrow> unit io" where
  "tick env oracle_address fetched =
     then_io (ext_call Call_fetchRandomValue fetched) (\<lambda>data.
     then_io (console_log (Log_new_tick (fst data))) (\<lambda>_.
       feeder_updateOracleValue env oracle_address data))"

section \<open>The queue snapshot reader and the start-up reconciliation\<close>

record OracleQueueItem =
  item_id :: number
  item_caller :: js_string

text \<open>
  index.ts, lines 24 to 47. \<open>read\<close> is the settlement of
  \<^verbatim>\<open>gearApi.programState.read(...)\<close> after \<^verbatim>\<open>toHuman()\<close>: the list \<^verbatim>\<open>RequestsQueue\<close> of
  pairs \<^verbatim>\<open>[id, caller]\<close> of strings.
\<close>

definition getOracleRequestsQueue :: "js_error + (js_string \<times> js_string) list \<Rightarrow> OracleQueueItem list io" where
  "getOracleRequestsQueue read =
     then_io (ext_call Call_programState_read read) (\<lambda>RequestsQueue.
       return_io (map (\<lambda>(id', caller). \<lparr>item_id = parseInt id', item_caller = caller\<rparr>) RequestsQueue))"

text \<open>
  Lines 109 to 120: \<^verbatim>\<open>oracleQueueItems.map\<close> calls \<^verbatim>\<open>updateOracleValue\<close> once for each
  item, in order, with a fresh random value. \<open>rnd k\<close> is the result of the \<open>k\<close>-th call of
  \<^verbatim>\<open>Math.random()\<close> and \<open>envs k\<close> what the node answers to the \<open>k\<close>-th submission. The
  result lists, for each invocation, its argument and its run.
\<close>

fun reconcile :: "(nat \<Rightarrow> node) \<Rightarrow> (nat \<Rightarrow> rat) \<Rightarrow> nat \<Rightarrow> OracleQueueItem list
    \<Rightarrow> (OracleUpdateValue \<times> unit io) list" where
  "reconcile envs rnd k [] = []"
| "reconcile envs rnd k (item # items) =
     (let arg = \<lparr>upd_id = item_id item, upd_value = getRandomNumber 9999999999999 (rnd k)\<rparr>
      in (arg, updateOracleValue (envs k) arg) # reconcile envs rnd (Suc k) items)"

text \<open>
  \<^verbatim>\<open>getOracleRequestsQueue(gearApi).then(...)\<close>: the reconciliation runs when the read
  resolves; when it rejects nothing is invoked.
\<close>

definition startup :: "js_error + (js_string \<times> js_string) list \<Rightarrow> (nat \<Rightarrow> node) \<Rightarrow> (nat \<Rightarrow> rat)
    \<Rightarrow> js_error + (OracleUpdateValue \<times> unit io) list" where
  "startup read envs rnd =
     (case snd (getOracleRequestsQueue read) of
        Inl e \<Rightarrow> Inl e
      | Inr oracleQueueItems \<Rightarrow> Inr (reconcile envs rnd 0 oracleQueueItems))"

section \<open>The handler of a message event\<close>

text \<open>
  Lines 123 to 158: the filter on the source, the decoding, the five lines, and the
  submission (started, not awaited). \<open>r\<close> is the result of \<^verbatim>\<open>Math.random()\<close> for this
  event.
\<close>

definition on_UserMessageSent :: "node \<Rightarrow> rat \<Rightarrow> string \<Rightarrow> string \<Rightarrow> 8 word list \<Rightarrow> unit io" where
  "on_UserMessageSent env r source dest payload =
     (if source \<noteq> ORACLE_ADDRESS then return_io ()
      else case decode_request payload of
             Inl e \<Rightarrow> ([], Inl e)
           | Inr None \<Rightarrow> return_io ()
           | Inr (Some req) \<Rightarrow>
               then_io (console_log Log_new_request) (\<lambda>_.
               then_io (console_log (Log_from source)) (\<lambda>_.
               then_io (console_log (Log_to dest)) (\<lambda>_.
               then_io (console_log (Log_id (req_id req))) (\<lambda>_.
               then_io (console_log (Log_caller (req_caller req))) (\<lambda>_.
                 updateOracleValue env
                   \<lparr>upd_id = req_id req, upd_value = getRandomNumber 9999999999999 r\<rparr>))))))"

section \<open>Properties of the rounding\<close>

lemma round_half_even_of_int: "round_half_even (of_int k) = k"
  by (simp add: round_half_even_def)

lemma bitlen_powi_bounds:
  assumes "0 < p"
  shows "(2::rat) powi (bitlen p - 1) \<le> of_int p" and "of_int p < (2::rat) powi (bitlen p)"
proof -
  from bitlen_bounds[OF assms]
  have a: "2 ^ nat (bitlen p - 1) \<le> p" and b: "p < 2 ^ nat (bitlen p)" by auto
  have ge1: "1 \<le> bitlen p"
    using assms bitlen_eq_zero_iff[of p] bitlen_nonneg[of p] by linarith
  have "(2::rat) powi (bitlen p - 1) = of_int (2 ^ nat (bitlen p - 1))"
    using ge1 by (simp add: power_int_nonneg_exp)
  also have "\<dots> \<le> of_int p" using a by (simp only: of_int_le_iff)
  finally show "(2::rat) powi (bitlen p - 1) \<le> of_int p" .
  have "(of_int p :: rat) < of_int (2 ^ nat (bitlen p))" using b by (simp only: of_int_less_iff)
  also have "\<dots> = 2 powi (bitlen p)" using ge1 by (simp add: power_int_nonneg_exp)
  finally show "of_int p < (2::rat) powi (bitlen p)" .
qed

lemma powi2_pos: "0 < (2::rat) powi k"
  by (simp add: zero_less_power_int)

lemma ilog2_bounds:
  assumes "0 < x"
  shows "2 powi (ilog2 x) \<le> x" and "x < 2 powi (ilog2 x + 1)"
proof -
  obtain p q where pq: "quotient_of x = (p, q)" by (cases "quotient_of x")
  have q: "0 < q" using quotient_of_denom_pos[OF pq] .
  have x: "x = of_int p / of_int q" using quotient_of_div[OF pq] .
  have p: "0 < p" using assms q x by (simp add: zero_less_divide_iff)
  let ?d = "bitlen p - bitlen q"
  have "(2::rat) powi (?d - 1) = 2 powi (bitlen p - 1) / 2 powi (bitlen q)"
    using power_int_diff[of "2::rat" "bitlen p - 1" "bitlen q"] by (simp add: algebra_simps)
  also have "\<dots> < of_int p / of_int q"
    by (rule frac_less2) (use bitlen_powi_bounds[OF p] bitlen_powi_bounds[OF q] q powi2_pos in auto)
  finally have lo: "2 powi (?d - 1) < x" using x by simp
  have "of_int p / of_int q < (2::rat) powi (bitlen p) / 2 powi (bitlen q - 1)"
    by (rule frac_less) (use bitlen_powi_bounds[OF p] bitlen_powi_bounds[OF q] p powi2_pos in auto)
  also have "\<dots> = 2 powi (?d + 1)"
    using power_int_diff[of "2::rat" "bitlen p" "bitlen q - 1"] by (simp add: algebra_simps)
  finally have hi: "x < 2 powi (?d + 1)" using x by simp
  show "2 powi (ilog2 x) \<le> x" using lo by (simp add: ilog2_def pq Let_def)
  show "x < 2 powi (ilog2 x + 1)" using hi by (auto simp add: ilog2_def pq Let_def)
qed

lemma round_double_of_int:
  assumes "0 < n" "n < 2 ^ 53"
  shows "round_double (of_int n) = of_int n"
proof -
  let ?x = "of_int n :: rat"
  let ?e = "ilog2 ?x"
  have pos: "0 < ?x" using assms by simp
  have lo: "2 powi ?e \<le> ?x" and hi: "?x < 2 powi (?e + 1)"
    using ilog2_bounds[OF pos] by auto
  have x53: "?x < 2 powi 53"
  proof -
    have "?x < of_int (2 ^ 53)" using assms(2) by (simp only: of_int_less_iff)
    then show ?thesis by simp
  qed
  have e_hi: "?e < 53"
  proof (rule ccontr)
    assume "\<not> ?e < 53"
    then have "(2::rat) powi 53 \<le> 2 powi ?e" by (intro power_int_increasing) auto
    with lo x53 show False by linarith
  qed
  have e_lo: "0 \<le> ?e"
  proof (rule ccontr)
    assume "\<not> 0 \<le> ?e"
    then have "(2::rat) powi (?e + 1) \<le> 2 powi 0" by (intro power_int_increasing) auto
    moreover have "1 \<le> ?x" using assms(1) by simp
    ultimately show False using hi by simp
  qed
  define k where "k = nat (52 - ?e)"
  have ek: "?e - 52 = - int k" using e_hi by (simp add: k_def)
  have ulp: "(2::rat) powi (?e - 52) = 1 / 2 ^ k"
    unfolding ek by (simp add: power_int_minus_divide)
  have "?x / (2 powi (?e - 52)) = of_int (n * 2 ^ k)" by (simp add: ulp)
  then have r: "round_half_even (?x / 2 powi (?e - 52)) = n * 2 ^ k"
    by (simp only: round_half_even_of_int)
  have m: "max ?e (- 1022) = ?e" using e_lo by simp
  have "round_double ?x =
      sgn ?x * of_int (round_half_even (?x / 2 powi (?e - 52))) * 2 powi (?e - 52)"
    using pos by (simp add: round_double_def Let_def m)
  also have "\<dots> = sgn ?x * of_int (n * 2 ^ k) * (1 / 2 ^ k)"
    by (simp only: r) (simp only: ulp)
  also have "\<dots> = ?x" using pos by simp
  finally show ?thesis .
qed

lemma round_double_2_53: "round_double 9007199254740992 = 9007199254740992"
  by code_simp

lemma round_double_0: "round_double 0 = 0"
  by (simp add: round_double_def)

lemma to_number_of_int:
  assumes "0 \<le> n" "n \<le> 2 ^ 53"
  shows "to_number (of_int n) = Fin (of_int n)"
proof -
  have rd: "round_double (of_int n) = of_int n"
  proof -
    consider "n = 0" | "n = 2 ^ 53" | "0 < n" "n < 2 ^ 53" using assms by linarith
    then show ?thesis
    proof cases
      case 1 then show ?thesis by (simp add: round_double_0)
    next
      case 2 then show ?thesis using round_double_2_53 by simp
    next
      case 3 then show ?thesis by (rule round_double_of_int)
    qed
  qed
  have "(of_int n :: rat) \<le> of_int (2 ^ 53)" using assms(2) by (simp only: of_int_le_iff)
  then have "(of_int n :: rat) < 2 ^ 1024" by simp
  moreover have "(0::rat) \<le> of_int n" using assms(1) by simp
  ultimately show ?thesis unfolding to_number_def Let_def rd by simp
qed

section \<open>\<^verbatim>\<open>parseInt\<close> reads back what \<^verbatim>\<open>toString\<close> writes\<close>

lemma uint_digit_unit:
  assumes "0 \<le> d" "d < 10"
  shows "uint (word_of_int (48 + d) :: code_unit) = 48 + d"
proof -
  have "uint (word_of_int (48 + d) :: code_unit) = (48 + d) mod 2 ^ 16"
    by (simp only: uint_word_of_int) simp
  also have "\<dots> = 48 + d" using assms by simp
  finally show ?thesis .
qed

lemma digit_value_char_of:
  assumes "0 \<le> d" "d < 10"
  shows "digit_value (word_of_int (48 + d)) = Some d"
  unfolding digit_value_def Let_def uint_digit_unit[OF assms] using assms by simp

lemma radix10_range:
  assumes "is_radix_digit 10 c"
  shows "48 \<le> uint c \<and> uint c \<le> 57"
  using assms by (auto simp: is_radix_digit_def digit_value_def Let_def split: if_splits option.splits)

lemma radix10_not_special:
  assumes "is_radix_digit 10 c"
  shows "\<not> is_whitespace c" "c \<noteq> of_char CHR ''-''" "c \<noteq> of_char CHR ''+''"
    "c \<noteq> of_char CHR ''x''" "c \<noteq> of_char CHR ''X''"
  using radix10_range[OF assms] by (auto simp: is_whitespace_def Let_def)

lemma toString_uint_digits:
  "0 \<le> n \<Longrightarrow> c \<in> set (toString_uint n) \<Longrightarrow> is_radix_digit 10 c"
proof (induction n rule: toString_uint.induct)
  case (1 n)
  show ?case
  proof (cases "n < 10")
    case True
    with 1 have "c = word_of_int (48 + n)" by (simp add: toString_uint.simps[of n] del: of_int_add)
    then show ?thesis using digit_value_char_of[of n] True 1(2) by (simp add: is_radix_digit_def)
  next
    case False
    with 1(3) have "c \<in> set (toString_uint (n div 10)) \<or> c = word_of_int (48 + n mod 10)"
      by (auto simp add: toString_uint.simps[of n] simp del: of_int_add)
    then show ?thesis
    proof
      assume "c \<in> set (toString_uint (n div 10))"
      then show ?thesis using 1(1)[OF False] 1(2) by simp
    next
      assume "c = word_of_int (48 + n mod 10)"
      then show ?thesis using digit_value_char_of[of "n mod 10"] by (simp add: is_radix_digit_def)
    qed
  qed
qed

lemma toString_uint_nonempty: "toString_uint n \<noteq> []"
  by (simp add: toString_uint.simps[of n])

lemma digits_value_snoc:
  "digits_value R (xs @ [c]) = digits_value R xs * R + (case digit_value c of None \<Rightarrow> 0 | Some d \<Rightarrow> d)"
  by (simp add: digits_value_def)

lemma digits_value_toString_uint: "0 \<le> n \<Longrightarrow> digits_value 10 (toString_uint n) = n"
proof (induction n rule: toString_uint.induct)
  case (1 n)
  show ?case
  proof (cases "n < 10")
    case True
    then show ?thesis
      using 1(2) digit_value_char_of[of n]
      by (simp add: toString_uint.simps[of n] digits_value_def del: of_int_add)
  next
    case False
    have ih: "digits_value 10 (toString_uint (n div 10)) = n div 10"
      using 1(1)[OF False] 1(2) by simp
    have "digits_value 10 (toString_uint n) = (n div 10) * 10 + n mod 10"
      using False digit_value_char_of[of "n mod 10"]
      by (simp add: toString_uint.simps[of n] digits_value_snoc ih del: of_int_add)
    then show ?thesis by simp
  qed
qed

lemma parseInt_decimal:
  assumes "s \<noteq> []" "\<forall>c\<in>set s. is_radix_digit 10 c"
  shows "parseInt s = to_number (of_int (digits_value 10 s))"
proof -
  obtain a t where s: "s = a # t" using assms(1) by (cases s) auto
  have da: "is_radix_digit 10 a" using assms(2) s by simp
  note nw = radix10_not_special(1-3)[OF da]
  have hx: "(take 2 s = js ''0x'') = False \<and> (take 2 s = js ''0X'') = False"
  proof (cases t)
    case Nil
    then show ?thesis using s by (simp add: js_def)
  next
    case (Cons b u)
    then have "is_radix_digit 10 b" using assms(2) s by simp
    from radix10_not_special(4,5)[OF this] show ?thesis using s Cons by (simp add: js_def)
  qed
  have tw: "takeWhile (is_radix_digit 10) s = s"
    using assms(2) by (simp add: takeWhile_eq_all_conv)
  have dw: "dropWhile is_whitespace s = s" using nw(1) s by simp
  have h: "(hd s = 45) = False" "(hd s = 43) = False"
    using nw s by simp_all
  show ?thesis
    unfolding parseInt_def Let_def dw by (simp add: h hx tw assms(1))
qed

lemma parseInt_toString_uint:
  "0 \<le> n \<Longrightarrow> parseInt (toString_uint n) = to_number (of_int n)"
  using parseInt_decimal[of "toString_uint n"] toString_uint_digits[of n]
  by (simp add: toString_uint_nonempty digits_value_toString_uint)

lemma parse_element_eq: "parse_element v = Fin (of_int (uint v))"
proof -
  have "uint v < 2 ^ 8" using uint_bounded[of v] by simp
  then have "uint v \<le> 2 ^ 53" by simp
  then show ?thesis
    unfolding parse_element_def using parseInt_toString_uint[of "uint v"] to_number_of_int[of "uint v"]
    by simp
qed

lemma byte_of_parse_element: "byte_of_number (parse_element v) = v"
  unfolding parse_element_eq byte_of_number_def
  by (simp only: number.case floor_of_int ceiling_of_int if_cancel word_of_int_uint)

lemma Buffer_from_parse: "Buffer_from (map parse_element bs) = bs"
  by (simp add: Buffer_from_def byte_of_parse_element map_idI)

section \<open>What the decoder computes\<close>

lemma le_value_nonneg: "0 \<le> le_value bs"
  by (induction bs) (simp_all add: le_value_def)

lemma le_value_Cons: "le_value (b # bs) = uint b + 256 * le_value bs"
  by (simp add: le_value_def)

lemma parse_element_zero: "parse_element t = Fin 0 \<longleftrightarrow> t = 0"
proof -
  have "(of_int (uint t) :: rat) = 0 \<longleftrightarrow> uint t = 0" by (simp only: of_int_eq_0_iff)
  then show ?thesis unfolding parse_element_eq by (simp only: number.inject uint_0_iff)
qed

lemma decode_request_empty: "decode_request [] = Inl TypeError"
  by (simp add: decode_request_def slice_def)

lemma decode_request_other: "t \<noteq> 0 \<Longrightarrow> decode_request (t # rest) = Inr None"
  by (simp add: decode_request_def slice_def parse_element_zero)

lemma decode_request_short:
  assumes "length rest < 8"
  shows "decode_request (0 # rest) = Inl RangeError"
proof -
  have "parse_element 0 = Fin 0" by (simp add: parse_element_zero)
  moreover have "length (take 16 rest) < 8" using assms by simp
  ultimately show ?thesis
    by (simp add: decode_request_def slice_def Buffer_from_parse readBigUInt64LE_def Let_def)
qed

lemma decode_request_long:
  assumes "8 \<le> length rest"
  shows "decode_request (0 # rest) =
    Inr (Some \<lparr>req_id = to_number (of_int (le_value (take 8 rest))),
               req_caller = map parse_element (drop 16 rest)\<rparr>)"
proof -
  have z: "parse_element 0 = Fin 0" by (simp add: parse_element_zero)
  have len: "\<not> length (take 16 rest) < 0 + 8" using assms by simp
  have tk: "take 8 (drop 0 (take 16 rest)) = take 8 rest" by (simp add: min_def)
  have rd: "readBigUInt64LE (take 16 rest) 0 = Inr (le_value (take 8 rest))"
    unfolding readBigUInt64LE_def using len tk by simp
  have pi: "parseInt (toString_uint (le_value (take 8 rest))) = to_number (of_int (le_value (take 8 rest)))"
    by (rule parseInt_toString_uint) (rule le_value_nonneg)
  show ?thesis
    by (simp add: decode_request_def slice_def slice_from_def Buffer_from_parse Let_def z rd pi)
qed

lemma le_value_le_bytes: "le_value (le_bytes k n) = n mod 256 ^ k"
proof (induction k arbitrary: n)
  case 0
  then show ?case by (simp add: le_value_def)
next
  case (Suc k)
  have "uint (word_of_int n :: 8 word) = n mod 256" by (simp add: uint_word_of_int)
  then have "le_value (le_bytes (Suc k) n) = n mod 256 + 256 * ((n div 256) mod 256 ^ k)"
    by (simp add: le_value_Cons Suc.IH)
  also have "\<dots> = n mod 256 ^ Suc k"
    using zmod_zmult2_eq[of "256 ^ k" n 256] by simp
  finally show ?case .
qed

lemma le_bytes_le_value: "le_bytes (length bs) (le_value bs) = bs"
proof (induction bs)
  case Nil
  then show ?case by simp
next
  case (Cons b bs)
  have w: "(word_of_int (uint b + 256 * le_value bs) :: 8 word) = b"
  proof (rule word_uint_eqI)
    have "uint (word_of_int (uint b + 256 * le_value bs) :: 8 word) = (uint b + 256 * le_value bs) mod 256"
      by (simp only: uint_word_of_int) simp
    also have "\<dots> = uint b" using uint_bounded[of b] by simp
    finally show "uint (word_of_int (uint b + 256 * le_value bs) :: 8 word) = uint b" .
  qed
  have d: "(uint b + 256 * le_value bs) div 256 = le_value bs"
    using uint_bounded[of b] by simp
  show ?case by (simp add: le_value_Cons w d Cons.IH del: of_int_add of_int_mult)
qed

lemma le_value_bound: "le_value bs < 256 ^ length bs"
proof (induction bs)
  case Nil
  then show ?case by (simp add: le_value_def)
next
  case (Cons b bs)
  have "uint b < 256" using uint_bounded[of b] by simp
  moreover have "le_value bs + 1 \<le> 256 ^ length bs" using Cons.IH by simp
  then have "256 * (le_value bs + 1) \<le> 256 * 256 ^ length bs" by simp
  ultimately show ?case by (simp add: le_value_Cons algebra_simps)
qed

lemma decode_request_payload:
  assumes "9 \<le> length payload" "hd payload = 0"
  shows "decode_request payload =
    Inr (Some \<lparr>req_id = to_number (of_int (le_value (take 8 (tl payload)))),
               req_caller = map parse_element (drop 17 payload)\<rparr>)"
proof -
  obtain rest where p: "payload = 0 # rest" using assms by (cases payload) auto
  then have "8 \<le> length rest" using assms(1) by simp
  from decode_request_long[OF this] show ?thesis using p by simp
qed

lemma map_parse_element: "map parse_element bs = map (\<lambda>b. Fin (of_int (uint b))) bs"
  by (simp add: parse_element_eq)

section \<open>The claims about the decoder\<close>

lemma to_number_1: "to_number 1 = Fin 1"
  using to_number_of_int[of 1] by simp

lemma to_number_3: "to_number 3 = Fin 3"
  using to_number_of_int[of 3] by simp

lemma to_number_7: "to_number 7 = Fin 7"
  using to_number_of_int[of 7] by simp

lemma round_double_2_53_1: "round_double 9007199254740993 = 9007199254740992"
  by code_simp

lemma round_double_2_64_1: "round_double 18446744073709551615 = 18446744073709551616"
  by code_simp

lemma to_number_2_53_1: "to_number 9007199254740993 = Fin 9007199254740992"
  by (simp add: to_number_def round_double_2_53_1)

lemma to_number_2_64_1: "to_number 18446744073709551615 = Fin 18446744073709551616"
  by (simp add: to_number_def round_double_2_64_1)

text \<open>
  Claim C1, as the code has it. There is no length test in the handler. For a payload
  with discriminant 0 and fewer than 17 bytes: with at most 8 bytes (fewer than eight
  after the discriminant) \<^verbatim>\<open>readBigUInt64LE\<close> throws a RangeError, which leaves the
  handler of an event from the oracle, and no request is produced; with 9 to 16 bytes a
  request is produced, its id read from bytes 1 to 8 and its caller empty. No
  malformed-event error is reported.
\<close>

theorem short_payload_decoding:
  assumes "payload \<noteq> []" "hd payload = 0" "length payload < 17"
  shows "decode_request payload =
      (if length payload < 9 then Inl RangeError
       else Inr (Some \<lparr>req_id = to_number (of_int (le_value (take 8 (tl payload)))),
                       req_caller = []\<rparr>))
    \<and> (length payload < 9
         \<longrightarrow> on_UserMessageSent env r ORACLE_ADDRESS dest payload = ([], Inl RangeError))"
proof (cases "length payload < 9")
  case True
  obtain rest where p: "payload = 0 # rest" using assms by (cases payload) auto
  then have "length rest < 8" using True by simp
  from decode_request_short[OF this] have "decode_request payload = Inl RangeError"
    using p by simp
  then show ?thesis using True by (simp add: on_UserMessageSent_def)
next
  case False
  then have "9 \<le> length payload" by simp
  from decode_request_payload[OF this assms(2)] show ?thesis using False assms(3) by simp
qed

text \<open>The two cases at a payload of ten bytes and at one of four.\<close>

theorem short_payload_decoding_witness:
  "decode_request [0, 7, 0, 0, 0, 0, 0, 0, 0, 9] = Inr (Some \<lparr>req_id = Fin 7, req_caller = []\<rparr>)
   \<and> decode_request [0, 7, 0, 0] = Inl RangeError
   \<and> on_UserMessageSent
        \<lparr>getWasmMetadata = Inr ''meta'', CreateType_create = (\<lambda>m a. Inr ''0x00''),
         decodeAddress = Inr ''0xd4'', calculateGas_handle = (\<lambda>s p. Inr 1000),
         message_send = (\<lambda>m. Inr m), signAndSend = (\<lambda>m. Inr [])\<rparr>
        (1 / 2) ORACLE_ADDRESS ''0xd4'' [0, 7, 0, 0] = ([], Inl RangeError)"
  using short_payload_decoding[of "[0, 7, 0, 0, 0, 0, 0, 0, 0, 9]"]
    short_payload_decoding[of "[0, 7, 0, 0]"
      "\<lparr>getWasmMetadata = Inr ''meta'', CreateType_create = (\<lambda>m a. Inr ''0x00''),
         decodeAddress = Inr ''0xd4'', calculateGas_handle = (\<lambda>s p. Inr 1000),
         message_send = (\<lambda>m. Inr m), signAndSend = (\<lambda>m. Inr [])\<rparr>"
      "1 / 2" "''0xd4''"]
  by (simp add: le_value_Cons le_value_def to_number_7)

text \<open>
  Claim C1 as stated fails: a payload of nine bytes with discriminant 0 is decoded to a
  request, and the payload that is the discriminant alone makes the handler throw.
\<close>

theorem short_payload_counterexample:
  "length [0, 1, 0, 0, 0, 0, 0, 0, 0 :: 8 word] < 17
   \<and> hd [0, 1, 0, 0, 0, 0, 0, 0, 0 :: 8 word] = 0
   \<and> decode_request [0, 1, 0, 0, 0, 0, 0, 0, 0] = Inr (Some \<lparr>req_id = Fin 1, req_caller = []\<rparr>)
   \<and> decode_request [0] = Inl RangeError"
  using decode_request_long[of "[1, 0, 0, 0, 0, 0, 0, 0]"] decode_request_short[of "[]"]
  by (simp add: le_value_Cons le_value_def to_number_1)

text \<open>
  Claim C2, amended: for a payload of at least 17 bytes with discriminant 0 whose 64-bit
  id (bytes 1 to 8, little-endian) is at most \<open>2 ^ 53\<close>, the decoded id is that integer,
  encoding it again gives back the same eight bytes, and the caller is bytes 17 to the
  end, one number for each byte.
\<close>

theorem id_round_trip:
  assumes "17 \<le> length payload" "hd payload = 0" "le_value (take 8 (tl payload)) \<le> 2 ^ 53"
  shows "\<exists>req n. decode_request payload = Inr (Some req)
      \<and> req_id req = Fin (of_int n)
      \<and> n = le_value (take 8 (tl payload))
      \<and> take 8 (spec_encode_id n) = take 8 (tl payload)
      \<and> req_caller req = map (\<lambda>b. Fin (of_int (uint b))) (drop 17 payload)"
proof -
  let ?n = "le_value (take 8 (tl payload))"
  have "9 \<le> length payload" using assms(1) by simp
  from decode_request_payload[OF this assms(2)]
  have d: "decode_request payload =
      Inr (Some \<lparr>req_id = Fin (of_int ?n), req_caller = map (\<lambda>b. Fin (of_int (uint b))) (drop 17 payload)\<rparr>)"
    using to_number_of_int[OF le_value_nonneg assms(3)] by (simp add: map_parse_element)
  have len: "length (take 8 (tl payload)) = 8" using assms(1) by simp
  have "le_bytes 8 ?n = take 8 (tl payload)"
    using le_bytes_le_value[of "take 8 (tl payload)"] len by simp
  then have e: "take 8 (spec_encode_id ?n) = take 8 (tl payload)"
    using len by (simp add: spec_encode_id_def)
  show ?thesis using d e by simp
qed

text \<open>The round trip at id 7 with two caller bytes.\<close>

theorem id_round_trip_witness:
  "\<exists>req n. decode_request [0, 7, 0, 0, 0, 0, 0, 0, 0, 0, 0, 0, 0, 0, 0, 0, 0, 11, 12] = Inr (Some req)
      \<and> req_id req = Fin (of_int n) \<and> n = 7
      \<and> take 8 (spec_encode_id n) = [7, 0, 0, 0, 0, 0, 0, 0]
      \<and> req_caller req = [Fin 11, Fin 12]"
  using id_round_trip[of "[0, 7, 0, 0, 0, 0, 0, 0, 0, 0, 0, 0, 0, 0, 0, 0, 0, 11, 12]"]
  by (simp add: le_value_Cons le_value_def)

text \<open>
  Claim C2 as stated fails for ids that are not doubles: the id is converted through
  \<^verbatim>\<open>parseInt\<close>, and the largest 64-bit id \<open>2 ^ 64 - 1\<close> is decoded to \<open>2 ^ 64\<close>.
\<close>

theorem id_round_trip_counterexample:
  "le_value [255, 255, 255, 255, 255, 255, 255, 255] = 18446744073709551615
   \<and> decode_request [0, 255, 255, 255, 255, 255, 255, 255, 255, 0, 0, 0, 0, 0, 0, 0, 0, 11]
       = Inr (Some \<lparr>req_id = Fin 18446744073709551616, req_caller = [Fin 11]\<rparr>)"
  using decode_request_long[of "[255, 255, 255, 255, 255, 255, 255, 255, 0, 0, 0, 0, 0, 0, 0, 0, 11]"]
  by (simp add: le_value_Cons le_value_def to_number_2_64_1 parse_element_eq)

lemma to_number_42: "to_number 42 = Fin 42"
  using to_number_of_int[of 42] by simp

lemma length_le_bytes: "length (le_bytes k n) = k"
  by (induction k arbitrary: n) simp_all

lemma spec_encode_id_42: "spec_encode_id 42 = [42, 0, 0, 0, 0, 0, 0, 0, 0, 0, 0, 0, 0, 0, 0, 0]"
  by code_simp

lemma spec_encode_id_2_53_1:
  "spec_encode_id 9007199254740993 = [1, 0, 0, 0, 0, 0, 32, 0, 0, 0, 0, 0, 0, 0, 0, 0]"
  by code_simp

lemma decode_request_encoded:
  assumes "0 \<le> n" "n < 2 ^ 64"
  shows "decode_request (0 # spec_encode_id n @ caller) =
    Inr (Some \<lparr>req_id = to_number (of_int n),
               req_caller = map (\<lambda>b. Fin (of_int (uint b))) caller\<rparr>)"
proof -
  have "8 \<le> length (spec_encode_id n @ caller)" by (simp add: spec_encode_id_def length_le_bytes)
  from decode_request_long[OF this]
  have "decode_request (0 # spec_encode_id n @ caller) =
    Inr (Some \<lparr>req_id = to_number (of_int (le_value (le_bytes 8 n))),
               req_caller = map parse_element caller\<rparr>)"
    by (simp add: spec_encode_id_def length_le_bytes)
  moreover have "le_value (le_bytes 8 n) = n"
    using assms by (simp add: le_value_le_bytes)
  ultimately show ?thesis by (simp add: map_parse_element)
qed

text \<open>
  Claim C8, amended: for an id \<open>n\<close> with \<open>0 \<le> n \<le> 2 ^ 53\<close> and any caller bytes, the
  payload made of the discriminant 0, the sixteen bytes of the id and the caller bytes
  is decoded to the request with id \<open>n\<close> and these caller bytes, one output element for
  each input byte.
\<close>

theorem wellformed_payload_decoding:
  assumes "0 \<le> n" "n \<le> 2 ^ 53"
  shows "decode_request (0 # spec_encode_id n @ caller) =
      Inr (Some \<lparr>req_id = Fin (of_int n), req_caller = map (\<lambda>b. Fin (of_int (uint b))) caller\<rparr>)
    \<and> length (map (\<lambda>b. Fin (of_int (uint b)) :: number) caller) = length caller"
proof -
  have "n < 2 ^ 64" using assms(2) by simp
  from decode_request_encoded[OF assms(1) this, of caller] to_number_of_int[OF assms]
  show ?thesis by simp
qed

text \<open>The scenario of the specification: id 42 and 32 caller bytes.\<close>

theorem wellformed_payload_decoding_witness:
  "decode_request
     [0, 42, 0, 0, 0, 0, 0, 0, 0, 0, 0, 0, 0, 0, 0, 0, 0,
      1, 2, 3, 4, 5, 6, 7, 8, 9, 10, 11, 12, 13, 14, 15, 16,
      17, 18, 19, 20, 21, 22, 23, 24, 25, 26, 27, 28, 29, 30, 31, 32] =
   Inr (Some \<lparr>req_id = Fin 42,
              req_caller = map Fin
                [1, 2, 3, 4, 5, 6, 7, 8, 9, 10, 11, 12, 13, 14, 15, 16,
                 17, 18, 19, 20, 21, 22, 23, 24, 25, 26, 27, 28, 29, 30, 31, 32]\<rparr>)"
  using wellformed_payload_decoding[of 42
      "[1, 2, 3, 4, 5, 6, 7, 8, 9, 10, 11, 12, 13, 14, 15, 16,
        17, 18, 19, 20, 21, 22, 23, 24, 25, 26, 27, 28, 29, 30, 31, 32]"]
  by (simp add: spec_encode_id_42)

text \<open>
  Claim C8 as stated fails above \<open>2 ^ 53\<close>: the well-formed payload of the id
  \<open>2 ^ 53 + 1\<close> is decoded to the id \<open>2 ^ 53\<close>.
\<close>

theorem wellformed_payload_counterexample:
  "spec_encode_id 9007199254740993 = [1, 0, 0, 0, 0, 0, 32, 0, 0, 0, 0, 0, 0, 0, 0, 0]
   \<and> decode_request ([0, 1, 0, 0, 0, 0, 0, 32, 0, 0, 0, 0, 0, 0, 0, 0, 0] @ [5, 6]) =
       Inr (Some \<lparr>req_id = Fin 9007199254740992, req_caller = [Fin 5, Fin 6]\<rparr>)"
  using decode_request_long[of "[1, 0, 0, 0, 0, 0, 32, 0, 0, 0, 0, 0, 0, 0, 0, 0, 5, 6]"]
  by (simp add: spec_encode_id_2_53_1 le_value_Cons le_value_def
      to_number_2_53_1 parse_element_eq)

text \<open>
  Claim C10: two payloads of at least 17 bytes with discriminant 0 that agree on bytes
  1 to 8 are decoded to the same id, whatever their bytes 9 to 16 are.
\<close>

theorem id_ignores_high_bytes:
  assumes "17 \<le> length p" "17 \<le> length q" "hd p = 0" "hd q = 0"
    and "take 8 (tl p) = take 8 (tl q)"
  shows "\<exists>a b. decode_request p = Inr (Some a) \<and> decode_request q = Inr (Some b)
      \<and> req_id a = req_id b"
proof -
  have "9 \<le> length p" "9 \<le> length q" using assms(1,2) by simp_all
  from decode_request_payload[OF this(1) assms(3)] decode_request_payload[OF this(2) assms(4)]
  show ?thesis using assms(5) by simp
qed

text \<open>Two payloads that differ in every byte from 9 to 16.\<close>

theorem id_ignores_high_bytes_witness:
  "\<exists>a b. decode_request [0, 3, 0, 0, 0, 0, 0, 0, 0, 0, 0, 0, 0, 0, 0, 0, 0, 9] = Inr (Some a)
     \<and> decode_request [0, 3, 0, 0, 0, 0, 0, 0, 0, 255, 1, 2, 3, 4, 5, 6, 7, 9] = Inr (Some b)
     \<and> req_id a = req_id b"
  using id_ignores_high_bytes[of "[0, 3, 0, 0, 0, 0, 0, 0, 0, 0, 0, 0, 0, 0, 0, 0, 0, 9]"
      "[0, 3, 0, 0, 0, 0, 0, 0, 0, 255, 1, 2, 3, 4, 5, 6, 7, 9]"]
  by simp

section \<open>The range of the random value\<close>

lemma round_half_even_le: "of_int (round_half_even q) \<le> q + 1 / 2"
proof -
  define f where "f = \<lfloor>q\<rfloor>"
  define d where "d = q - of_int f"
  have f: "of_int f \<le> q" unfolding f_def by simp
  have r: "round_half_even q =
      (if d < 1 / 2 then f else if 1 / 2 < d then f + 1 else if even f then f else f + 1)"
    unfolding round_half_even_def Let_def f_def d_def ..
  show ?thesis
  proof (cases "d < 1 / 2")
    case True
    then have "round_half_even q = f" by (simp add: r)
    then show ?thesis using f by simp
  next
    case False
    then have "round_half_even q \<le> f + 1" by (simp add: r)
    then have "of_int (round_half_even q) \<le> (of_int (f + 1) :: rat)" by (simp only: of_int_le_iff)
    moreover have "1 / 2 \<le> q - of_int f" using False by (simp add: d_def)
    ultimately show ?thesis by simp
  qed
qed

lemma round_half_even_nonneg:
  assumes "0 \<le> q"
  shows "0 \<le> round_half_even q"
proof -
  have "0 \<le> \<lfloor>q\<rfloor>" using assms by simp
  then show ?thesis by (simp add: round_half_even_def Let_def)
qed

lemma round_double_pos:
  assumes "0 < x"
  shows "round_double x =
    of_int (round_half_even (x / 2 powi (max (ilog2 x) (- 1022) - 52))) * 2 powi (max (ilog2 x) (- 1022) - 52)"
  using assms by (simp add: round_double_def Let_def)

lemma unit_double_le:
  assumes "unit_double r"
  shows "r \<le> 1 - 1 / 2 ^ 53"
proof (cases "r < 1 / 2")
  case True
  then show ?thesis by simp
next
  case False
  then have half: "1 / 2 \<le> r" by simp
  then have pos: "0 < r" by simp
  have r1: "r < 1" and fp: "round_double r = r"
    using assms by (simp_all add: unit_double_def is_double_def)
  let ?e = "ilog2 r"
  have lo: "2 powi ?e \<le> r" and hi: "r < 2 powi (?e + 1)" using ilog2_bounds[OF pos] by auto
  have e_neg: "?e < 0"
  proof (rule ccontr)
    assume "\<not> ?e < 0"
    then have "(2::rat) powi 0 \<le> 2 powi ?e" by (intro power_int_increasing) auto
    with lo r1 show False by simp
  qed
  have e_ge: "- 1 \<le> ?e"
  proof (rule ccontr)
    assume "\<not> - 1 \<le> ?e"
    then have "(2::rat) powi (?e + 1) \<le> 2 powi (- 1)" by (intro power_int_increasing) auto
    with hi half show False by (simp add: power_int_minus_divide)
  qed
  have e: "?e = - 1" using e_neg e_ge by simp
  have ulp: "(2::rat) powi (max ?e (- 1022) - 52) = 1 / 2 ^ 53"
    unfolding e by (simp add: power_int_minus_divide)
  define n where "n = round_half_even (r / (1 / 2 ^ 53))"
  have rn: "r = of_int n * (1 / 2 ^ 53)"
    using round_double_pos[OF pos] fp unfolding ulp n_def by simp
  then have "of_int n = r * 2 ^ 53" by simp
  also have "\<dots> < 2 ^ 53" using r1 by simp
  finally have "(of_int n :: rat) < of_int (2 ^ 53)" by simp
  then have "n < 2 ^ 53" by (simp only: of_int_less_iff)
  then have "n \<le> 2 ^ 53 - 1" by simp
  then have "(of_int n :: rat) \<le> of_int (2 ^ 53 - 1)" by (simp only: of_int_le_iff)
  then have "(of_int n :: rat) * (1 / 2 ^ 53) \<le> of_int (2 ^ 53 - 1) * (1 / 2 ^ 53)"
    by (rule mult_right_mono) simp
  with rn show ?thesis by simp
qed

lemma round_double_product_range:
  assumes "0 \<le> x" "x \<le> 9999999999999 - 9999999999999 / 2 ^ 53"
  shows "0 \<le> round_double x \<and> round_double x < 9999999999999"
proof (cases "x = 0")
  case True
  then show ?thesis by (simp add: round_double_0)
next
  case False
  then have pos: "0 < x" using assms(1) by simp
  let ?e = "ilog2 x"
  let ?E = "max ?e (- 1022)"
  let ?ulp = "(2::rat) powi (?E - 52)"
  let ?n = "round_half_even (x / ?ulp)"
  have lo: "2 powi ?e \<le> x" and hi: "x < 2 powi (?e + 1)" using ilog2_bounds[OF pos] by auto
  have ulp_pos: "0 < ?ulp" by (rule powi2_pos)
  have y: "round_double x = of_int ?n * ?ulp" by (rule round_double_pos[OF pos])
  have "0 \<le> x / ?ulp" using pos ulp_pos by simp
  then have "0 \<le> ?n" by (rule round_half_even_nonneg)
  then have nonneg: "0 \<le> round_double x" unfolding y using ulp_pos by simp
  have n_le: "of_int ?n \<le> x / ?ulp + 1 / 2" by (rule round_half_even_le)
  have upper: "round_double x < 9999999999999"
  proof (cases "43 \<le> ?e")
    case True
    have "?e < 44"
    proof (rule ccontr)
      assume "\<not> ?e < 44"
      then have "(2::rat) powi 44 \<le> 2 powi ?e" by (intro power_int_increasing) auto
      with lo assms(2) show False by simp
    qed
    with True have e: "?e = 43" by simp
    have ulp: "?ulp = 1 / 512" unfolding e by (simp add: power_int_minus_divide)
    have "x / ?ulp + 1 / 2 = x * 512 + 1 / 2" unfolding ulp by simp
    also have "\<dots> < 5119999999999488" using assms(2) by simp
    finally have "(of_int ?n :: rat) < of_int 5119999999999488" using n_le by simp
    then have "?n < 5119999999999488" by (simp only: of_int_less_iff)
    then have "?n \<le> 5119999999999487" by simp
    then have "(of_int ?n :: rat) \<le> of_int 5119999999999487" by (simp only: of_int_le_iff)
    then have "(of_int ?n :: rat) * (1 / 512) \<le> of_int 5119999999999487 * (1 / 512)"
      by (rule mult_right_mono) simp
    then show ?thesis unfolding y ulp by simp
  next
    case False
    then have E: "?E \<le> 42" by simp
    have eE: "?e + 1 \<le> ?E + 1" by simp
    have "x < 2 powi (?E + 1)"
      using hi power_int_increasing[OF eE, of "2::rat"] by simp
    then have "x / ?ulp < 2 powi (?E + 1) / ?ulp" using ulp_pos by (simp add: divide_strict_right_mono)
    also have "\<dots> = 2 powi 53"
      using power_int_diff[of "2::rat" "?E + 1" "?E - 52"] by simp
    finally have "(of_int ?n :: rat) < 2 ^ 53 + 1 / 2" using n_le by simp
    also have "\<dots> < of_int (2 ^ 53 + 1)" by simp
    finally have "?n < 2 ^ 53 + 1" by (simp only: of_int_less_iff)
    then have "?n \<le> 2 ^ 53" by simp
    then have "(of_int ?n :: rat) \<le> of_int (2 ^ 53)" by (simp only: of_int_le_iff)
    then have "(of_int ?n :: rat) * ?ulp \<le> of_int (2 ^ 53) * ?ulp"
      using ulp_pos by (intro mult_right_mono) simp_all
    also have "\<dots> = 2 powi 53 * 2 powi (?E - 52)" by simp
    also have "\<dots> = 2 powi (?E + 1)"
      using power_int_add[of "2::rat" 53 "?E - 52"] by (simp add: algebra_simps)
    also have "\<dots> \<le> 2 powi 43" using E by (intro power_int_increasing) auto
    finally show ?thesis unfolding y by simp
  qed
  show ?thesis using nonneg upper by simp
qed

lemma getRandomNumber_range:
  assumes "unit_double r"
  shows "0 \<le> getRandomNumber 9999999999999 r \<and> getRandomNumber 9999999999999 r < 9999999999999"
proof -
  have r0: "0 \<le> r" using assms by (simp add: unit_double_def)
  have "r * 9999999999999 \<le> (1 - 1 / 2 ^ 53) * 9999999999999"
    using unit_double_le[OF assms] by (intro mult_right_mono) simp_all
  then have "r * 9999999999999 \<le> 9999999999999 - 9999999999999 / 2 ^ 53" by (simp add: algebra_simps)
  moreover have "0 \<le> r * 9999999999999" using r0 by simp
  ultimately have "0 \<le> round_double (r * 9999999999999) \<and> round_double (r * 9999999999999) < 9999999999999"
    by (rule round_double_product_range[rotated])
  then show ?thesis by (simp add: getRandomNumber_def floor_less_iff)
qed

lemma round_double_largest_below_1:
  "round_double (9007199254740991 / 9007199254740992) = 9007199254740991 / 9007199254740992"
  by code_simp

lemma round_double_half: "round_double (1 / 2) = 1 / 2"
  by code_simp

lemma unit_double_largest: "unit_double (9007199254740991 / 9007199254740992)"
  by (simp add: unit_double_def is_double_def round_double_largest_below_1)

lemma unit_double_half: "unit_double (1 / 2)"
  by (simp add: unit_double_def is_double_def round_double_half)

lemma getRandomNumber_largest:
  "getRandomNumber 9999999999999 (9007199254740991 / 9007199254740992) = 9999999999998"
  unfolding getRandomNumber_def by code_simp

text \<open>
  Claim C7: whatever double in \<open>[0, 1)\<close> the call of \<^verbatim>\<open>Math.random()\<close> returns,
  \<^verbatim>\<open>getRandomNumber(9999999999999)\<close> is an integer that is at least 0 and strictly below
  9999999999999.
\<close>

theorem getRandomNumber_below_bound:
  assumes "unit_double r"
  shows "0 \<le> getRandomNumber 9999999999999 r \<and> getRandomNumber 9999999999999 r < 9999999999999"
  using assms by (rule getRandomNumber_range)

text \<open>The largest double below 1 is a possible result of \<^verbatim>\<open>Math.random()\<close>.\<close>

theorem getRandomNumber_below_bound_witness:
  "unit_double (9007199254740991 / 9007199254740992)
   \<and> 0 \<le> getRandomNumber 9999999999999 (9007199254740991 / 9007199254740992)
   \<and> getRandomNumber 9999999999999 (9007199254740991 / 9007199254740992) < 9999999999999"
  using getRandomNumber_below_bound[OF unit_double_largest] unit_double_largest
  by simp

section \<open>The submitter and the reconciliation\<close>

lemma try_catch_log_resolves:
  fixes m :: "unit io"
  shows "snd (try_catch m (\<lambda>error. console_log (l error))) = Inr ()"
  by (cases m) (auto simp: try_catch_def console_log_def split: sum.splits)

lemma updateOracleValue_resolves: "snd (updateOracleValue env item) = Inr ()"
  unfolding updateOracleValue_def by (rule try_catch_log_resolves)

lemma feeder_updateOracleValue_resolves:
  "snd (feeder_updateOracleValue env oracle_address data) = Inr ()"
  unfolding feeder_updateOracleValue_def by (rule try_catch_log_resolves)

lemma reconcile_length: "length (reconcile envs rnd k items) = length items"
  by (induction items arbitrary: k) (simp_all add: Let_def)

lemma reconcile_nth:
  "i < length items \<Longrightarrow>
   reconcile envs rnd k items ! i =
     (\<lparr>upd_id = item_id (items ! i), upd_value = getRandomNumber 9999999999999 (rnd (k + i))\<rparr>,
      updateOracleValue (envs (k + i))
        \<lparr>upd_id = item_id (items ! i), upd_value = getRandomNumber 9999999999999 (rnd (k + i))\<rparr>)"
proof (induction items arbitrary: k i)
  case Nil
  then show ?case by simp
next
  case (Cons item items)
  show ?case
  proof (cases i)
    case 0
    then show ?thesis by (simp add: Let_def)
  next
    case (Suc j)
    then have "j < length items" using Cons.prems by simp
    from Cons.IH[OF this, of "Suc k"] show ?thesis using Suc by (simp add: Let_def)
  qed
qed

lemma startup_resolved:
  "startup (Inr q) envs rnd =
     Inr (reconcile envs rnd 0 (map (\<lambda>(i, c). \<lparr>item_id = parseInt i, item_caller = c\<rparr>) q))"
  by (simp add: startup_def getOracleRequestsQueue_def then_io_def ext_call_def return_io_def)

lemma getOracleRequestsQueue_items:
  "snd (getOracleRequestsQueue (Inr q)) =
     Inr (map (\<lambda>(i, c). \<lparr>item_id = parseInt i, item_caller = c\<rparr>) q)"
  by (simp add: getOracleRequestsQueue_def then_io_def ext_call_def return_io_def)

text \<open>
  Claim C5: when the read of the queue resolves with \<open>N\<close> entries, the reader returns a
  snapshot of \<open>N\<close> items and the start-up invokes the submitter exactly \<open>N\<close> times, the
  \<open>i\<close>-th invocation with the id of the \<open>i\<close>-th snapshot item (which is \<^verbatim>\<open>parseInt\<close> of
  the \<open>i\<close>-th id string of the queue) and a value that is at least 0 and below
  9999999999999, and each invocation settles without an error; for the empty queue
  nothing is invoked and the start-up completes. The random numbers are doubles in
  \<open>[0, 1)\<close>.
\<close>

theorem reconciliation_invocations:
  assumes "\<forall>k. unit_double (rnd k)"
  shows "\<exists>items invs.
      snd (getOracleRequestsQueue (Inr q)) = Inr items
    \<and> startup (Inr q) envs rnd = Inr invs
    \<and> length items = length q
    \<and> length invs = length items
    \<and> (\<forall>i<length items.
          upd_id (fst (invs ! i)) = item_id (items ! i)
          \<and> item_id (items ! i) = parseInt (fst (q ! i))
          \<and> 0 \<le> upd_value (fst (invs ! i))
          \<and> upd_value (fst (invs ! i)) < 9999999999999
          \<and> snd (invs ! i) = updateOracleValue (envs i) (fst (invs ! i))
          \<and> snd (snd (invs ! i)) = Inr ())
    \<and> startup (Inr []) envs rnd = Inr []"
proof -
  let ?items = "map (\<lambda>(i, c). \<lparr>item_id = parseInt i, item_caller = c\<rparr>) q"
  let ?invs = "reconcile envs rnd 0 ?items"
  have "unit_double (rnd i)" for i using assms by simp
  from getRandomNumber_range[OF this]
  have g: "0 \<le> getRandomNumber 9999999999999 (rnd i)
      \<and> getRandomNumber 9999999999999 (rnd i) < 9999999999999" for i .
  have ids: "\<forall>i<length ?items. item_id (?items ! i) = parseInt (fst (q ! i))"
    by (simp add: case_prod_beta)
  have inv: "\<forall>i<length ?items.
          upd_id (fst (?invs ! i)) = item_id (?items ! i)
          \<and> 0 \<le> upd_value (fst (?invs ! i))
          \<and> upd_value (fst (?invs ! i)) < 9999999999999
          \<and> snd (?invs ! i) = updateOracleValue (envs i) (fst (?invs ! i))
          \<and> snd (snd (?invs ! i)) = Inr ()"
    using g by (simp add: reconcile_nth updateOracleValue_resolves)
  have A: "snd (getOracleRequestsQueue (Inr q)) = Inr ?items"
    by (rule getOracleRequestsQueue_items)
  have B: "startup (Inr q) envs rnd = Inr ?invs" by (rule startup_resolved)
  have C: "length ?items = length q" by simp
  have D: "length ?invs = length ?items" by (rule reconcile_length)
  have E: "\<forall>i<length ?items.
          upd_id (fst (?invs ! i)) = item_id (?items ! i)
          \<and> item_id (?items ! i) = parseInt (fst (q ! i))
          \<and> 0 \<le> upd_value (fst (?invs ! i))
          \<and> upd_value (fst (?invs ! i)) < 9999999999999
          \<and> snd (?invs ! i) = updateOracleValue (envs i) (fst (?invs ! i))
          \<and> snd (snd (?invs ! i)) = Inr ()"
    using ids inv by blast
  have F: "startup (Inr []) envs rnd = Inr []" by (simp add: startup_resolved)
  show ?thesis
    by (rule exI[of _ ?items], rule exI[of _ ?invs]) (intro conjI A B C D E F)
qed

lemma getRandomNumber_half: "getRandomNumber 9999999999999 (1 / 2) = 4999999999999"
  unfolding getRandomNumber_def by code_simp

lemma parseInt_7: "parseInt (js ''7'') = Fin 7"
  by (simp add: parseInt_def js_def Let_def is_whitespace_def is_radix_digit_def digit_value_def
      digits_value_def to_number_7)

lemma parseInt_12: "parseInt (js ''12'') = Fin 12"
  using to_number_of_int[of 12]
  by (simp add: parseInt_def js_def Let_def is_whitespace_def is_radix_digit_def digit_value_def
      digits_value_def)

text \<open>
  A queue of two entries, with the ids 7 and 12, every random number being one half,
  and a node where the metadata cannot be loaded.
\<close>

theorem reconciliation_invocations_witness:
  "\<exists>invs. startup (Inr [(js ''7'', js ''5Grw''), (js ''12'', js ''5FHn'')])
        (\<lambda>k. \<lparr>getWasmMetadata = Inl (Error ''no file''),
          CreateType_create = (\<lambda>m a. Inr ''0x00''), decodeAddress = Inr ''0xd4'',
          calculateGas_handle = (\<lambda>s p. Inr 1000), message_send = (\<lambda>m. Inr m),
          signAndSend = (\<lambda>m. Inr [])\<rparr>) (\<lambda>k. 1 / 2) = Inr invs
     \<and> length invs = 2
     \<and> upd_id (fst (invs ! 0)) = Fin 7
     \<and> upd_id (fst (invs ! 1)) = Fin 12
     \<and> 0 \<le> upd_value (fst (invs ! 0)) \<and> upd_value (fst (invs ! 0)) < 9999999999999
     \<and> 0 \<le> upd_value (fst (invs ! 1)) \<and> upd_value (fst (invs ! 1)) < 9999999999999
     \<and> snd (snd (invs ! 0)) = Inr () \<and> snd (snd (invs ! 1)) = Inr ()"
proof -
  let ?q = "[(js ''7'', js ''5Grw''), (js ''12'', js ''5FHn'')]"
  let ?envs = "\<lambda>k::nat. \<lparr>getWasmMetadata = Inl (Error ''no file''),
          CreateType_create = (\<lambda>m a. Inr ''0x00''), decodeAddress = Inr ''0xd4'',
          calculateGas_handle = (\<lambda>s p. Inr 1000), message_send = (\<lambda>m. Inr m),
          signAndSend = (\<lambda>m. Inr [])\<rparr>"
  have u: "\<forall>k::nat. unit_double ((\<lambda>k. 1 / 2) k)" using unit_double_half by simp
  from reconciliation_invocations[OF u, of ?q ?envs]
  obtain items :: "OracleQueueItem list" and invs
    where s: "startup (Inr ?q) ?envs (\<lambda>k. 1 / 2) = Inr invs"
    and l: "length items = length ?q" "length invs = length items"
    and p: "\<forall>i<length items.
          upd_id (fst (invs ! i)) = item_id (items ! i)
          \<and> item_id (items ! i) = parseInt (fst (?q ! i))
          \<and> 0 \<le> upd_value (fst (invs ! i))
          \<and> upd_value (fst (invs ! i)) < 9999999999999
          \<and> snd (invs ! i) = updateOracleValue (?envs i) (fst (invs ! i))
          \<and> snd (snd (invs ! i)) = Inr ()"
    by blast
  have i0: "0 < length items" and i1: "1 < length items" using l by simp_all
  note a0 = p[rule_format, OF i0, unfolded nth_Cons_0 fst_conv]
    and a1 = p[rule_format, OF i1, unfolded One_nat_def nth_Cons_Suc nth_Cons_0 fst_conv]
  from a0 have "upd_id (fst (invs ! 0)) = parseInt (js ''7'')" by simp
  then have id0: "upd_id (fst (invs ! 0)) = Fin 7" by (simp only: parseInt_7)
  from a1 have "upd_id (fst (invs ! Suc 0)) = parseInt (js ''12'')" by simp
  then have id1: "upd_id (fst (invs ! 1)) = Fin 12" by (simp only: parseInt_12 One_nat_def)
  from a0 have v0: "0 \<le> upd_value (fst (invs ! 0))" "upd_value (fst (invs ! 0)) < 9999999999999"
    "snd (snd (invs ! 0)) = Inr ()" by blast+
  from a1 have v1: "0 \<le> upd_value (fst (invs ! Suc 0))"
    "upd_value (fst (invs ! Suc 0)) < 9999999999999" "snd (snd (invs ! Suc 0)) = Inr ()" by blast+
  have "length invs = 2" using l by simp
  then show ?thesis using s id0 id1 v0 v1 by simp
qed

lemma submit_body_gas_failure:
  assumes "getWasmMetadata env = Inr oracleMeta"
    and "CreateType_create env oracleMeta (UpdateValue (upd_id item) (upd_value item)) = Inr payload"
    and "decodeAddress env = Inr source"
    and "calculateGas_handle env source payload = Inl e"
  shows "updateOracleValue env item =
    ([Called Call_getWasmMetadata,
      Called (Call_create (UpdateValue (upd_id item) (upd_value item))),
      Called Call_decodeAddress,
      Called (Call_calculateGas source payload),
      Logged Log_failed], Inr ())"
  using assms
  by (simp add: updateOracleValue_def submit_body_def send_action_def try_catch_def then_io_def
      ext_call_def console_log_def return_io_def)

lemma gas_precedes_broadcast:
  "\<forall>i<length (fst (updateOracleValue env item)).
     is_broadcast (fst (updateOracleValue env item) ! i)
     \<longrightarrow> (\<exists>j<i. is_gas_estimation (fst (updateOracleValue env item) ! j))"
  by (auto simp: updateOracleValue_def submit_body_def send_action_def try_catch_def then_io_def
      ext_call_def console_log_def return_io_def Let_def is_broadcast_def is_gas_estimation_def
      nth_Cons' less_Suc_eq
      split: sum.splits)

text \<open>
  Claim C4: when the metadata, the encoding and the address succeed and the gas
  estimation fails, \<^verbatim>\<open>updateOracleValue\<close> makes these four calls, prints the failure line
  and settles without an error, so neither \<^verbatim>\<open>message.send\<close> nor \<^verbatim>\<open>signAndSend\<close> is
  called; and in every run, each call of \<^verbatim>\<open>message.send\<close> or \<^verbatim>\<open>signAndSend\<close> comes
  after the gas estimation.
\<close>

theorem gas_failure_stops_submission:
  "(getWasmMetadata env = Inr oracleMeta
      \<and> CreateType_create env oracleMeta (UpdateValue (upd_id item) (upd_value item)) = Inr payload
      \<and> decodeAddress env = Inr source
      \<and> calculateGas_handle env source payload = Inl e
    \<longrightarrow> updateOracleValue env item =
          ([Called Call_getWasmMetadata,
            Called (Call_create (UpdateValue (upd_id item) (upd_value item))),
            Called Call_decodeAddress,
            Called (Call_calculateGas source payload),
            Logged Log_failed], Inr ())
        \<and> (\<forall>x\<in>set (fst (updateOracleValue env item)). \<not> is_broadcast x))
   \<and> (\<forall>i<length (fst (updateOracleValue env item)).
         is_broadcast (fst (updateOracleValue env item) ! i)
         \<longrightarrow> (\<exists>j<i. is_gas_estimation (fst (updateOracleValue env item) ! j)))"
proof (intro conjI impI)
  assume a: "getWasmMetadata env = Inr oracleMeta
      \<and> CreateType_create env oracleMeta (UpdateValue (upd_id item) (upd_value item)) = Inr payload
      \<and> decodeAddress env = Inr source
      \<and> calculateGas_handle env source payload = Inl e"
  then have u: "updateOracleValue env item =
          ([Called Call_getWasmMetadata,
            Called (Call_create (UpdateValue (upd_id item) (upd_value item))),
            Called Call_decodeAddress,
            Called (Call_calculateGas source payload),
            Logged Log_failed], Inr ())"
    using submit_body_gas_failure[of env oracleMeta item payload source e] by simp
  then show "updateOracleValue env item =
          ([Called Call_getWasmMetadata,
            Called (Call_create (UpdateValue (upd_id item) (upd_value item))),
            Called Call_decodeAddress,
            Called (Call_calculateGas source payload),
            Logged Log_failed], Inr ())" .
  show "\<forall>x\<in>set (fst (updateOracleValue env item)). \<not> is_broadcast x"
    unfolding u by (simp add: is_broadcast_def)
next
  show "\<forall>i<length (fst (updateOracleValue env item)).
         is_broadcast (fst (updateOracleValue env item) ! i)
         \<longrightarrow> (\<exists>j<i. is_gas_estimation (fst (updateOracleValue env item) ! j))"
    by (rule gas_precedes_broadcast)
qed

text \<open>
  A node whose gas estimation fails, and a node that answers every call: there the
  two broadcast calls are in the run, after the gas estimation.
\<close>

theorem gas_failure_stops_submission_witness:
  "updateOracleValue
     \<lparr>getWasmMetadata = Inr ''meta'', CreateType_create = (\<lambda>m a. Inr ''0x00''),
      decodeAddress = Inr ''0xd4'', calculateGas_handle = (\<lambda>s p. Inl (Error ''gas'')),
      message_send = (\<lambda>m. Inr m), signAndSend = (\<lambda>m. Inr [])\<rparr>
     \<lparr>upd_id = Fin 7, upd_value = 5\<rparr> =
     ([Called Call_getWasmMetadata, Called (Call_create (UpdateValue (Fin 7) 5)),
       Called Call_decodeAddress, Called (Call_calculateGas ''0xd4'' ''0x00''),
       Logged Log_failed], Inr ())
   \<and> fst (updateOracleValue
     \<lparr>getWasmMetadata = Inr ''meta'', CreateType_create = (\<lambda>m a. Inr ''0x00''),
      decodeAddress = Inr ''0xd4'', calculateGas_handle = (\<lambda>s p. Inr 1000),
      message_send = (\<lambda>m. Inr m), signAndSend = (\<lambda>m. Inr [])\<rparr>
     \<lparr>upd_id = Fin 7, upd_value = 5\<rparr>) =
     [Called Call_getWasmMetadata, Called (Call_create (UpdateValue (Fin 7) 5)),
      Called Call_decodeAddress, Called (Call_calculateGas ''0xd4'' ''0x00''),
      Called (Call_send \<lparr>destination = ''0x'', msg_payload = ''0x00'', gasLimit = 1000, msg_value = 0\<rparr>),
      Called (Call_signAndSend \<lparr>destination = ''0x'', msg_payload = ''0x00'', gasLimit = 1000, msg_value = 0\<rparr>)]
   \<and> (\<exists>j<4. is_gas_estimation (fst (updateOracleValue
     \<lparr>getWasmMetadata = Inr ''meta'', CreateType_create = (\<lambda>m a. Inr ''0x00''),
      decodeAddress = Inr ''0xd4'', calculateGas_handle = (\<lambda>s p. Inr 1000),
      message_send = (\<lambda>m. Inr m), signAndSend = (\<lambda>m. Inr [])\<rparr>
     \<lparr>upd_id = Fin 7, upd_value = 5\<rparr>) ! j))"
proof -
  let ?bad = "\<lparr>getWasmMetadata = Inr ''meta'', CreateType_create = (\<lambda>m a. Inr ''0x00''),
      decodeAddress = Inr ''0xd4'', calculateGas_handle = (\<lambda>s p. Inl (Error ''gas'')),
      message_send = (\<lambda>m. Inr m), signAndSend = (\<lambda>m. Inr [])\<rparr>"
  let ?ok = "\<lparr>getWasmMetadata = Inr ''meta'', CreateType_create = (\<lambda>m a. Inr ''0x00''),
      decodeAddress = Inr ''0xd4'', calculateGas_handle = (\<lambda>s p. Inr 1000),
      message_send = (\<lambda>m. Inr m), signAndSend = (\<lambda>m. Inr [])\<rparr>"
  let ?item = "\<lparr>upd_id = Fin 7, upd_value = 5\<rparr>"
  have t: "fst (updateOracleValue ?ok ?item) =
     [Called Call_getWasmMetadata, Called (Call_create (UpdateValue (Fin 7) 5)),
      Called Call_decodeAddress, Called (Call_calculateGas ''0xd4'' ''0x00''),
      Called (Call_send \<lparr>destination = ''0x'', msg_payload = ''0x00'', gasLimit = 1000, msg_value = 0\<rparr>),
      Called (Call_signAndSend \<lparr>destination = ''0x'', msg_payload = ''0x00'', gasLimit = 1000, msg_value = 0\<rparr>)]"
    by (simp add: updateOracleValue_def submit_body_def send_action_def try_catch_def then_io_def
        ext_call_def console_log_def return_io_def ORACLE_ADDRESS_def Let_def)
  have 1: "updateOracleValue ?bad ?item =
     ([Called Call_getWasmMetadata, Called (Call_create (UpdateValue (Fin 7) 5)),
       Called Call_decodeAddress, Called (Call_calculateGas ''0xd4'' ''0x00''),
       Logged Log_failed], Inr ())"
    using gas_failure_stops_submission[of ?bad "''meta''" ?item "''0x00''" "''0xd4''" "Error ''gas''"]
    by simp
  have "4 < length (fst (updateOracleValue ?ok ?item))
      \<and> is_broadcast (fst (updateOracleValue ?ok ?item) ! 4)"
    unfolding t by (simp add: is_broadcast_def)
  then have 2: "\<exists>j<4. is_gas_estimation (fst (updateOracleValue ?ok ?item) ! j)"
    using gas_failure_stops_submission[of ?ok "''meta''" ?item "''0x00''" "''0xd4''" "Error ''gas''"]
    by blast
  show ?thesis using 1 2 t by simp
qed

lemma failure_is_logged:
  assumes "snd (submit_body env item) = Inl e"
  shows "updateOracleValue env item = (fst (submit_body env item) @ [Logged Log_failed], Inr ())"
  using assms
  by (cases "submit_body env item")
    (simp add: updateOracleValue_def try_catch_def then_io_def console_log_def return_io_def)

text \<open>
  Claim C3 at an acknowledgment that reports an error: every call succeeds,
  \<^verbatim>\<open>signAndSend\<close> resolves, and the subscription then delivers one status event with
  \<^verbatim>\<open>isError\<close>. The status callback throws in its own invocation; the failure line is
  not printed by \<^verbatim>\<open>updateOracleValue\<close>, in neither program, and the error is not caught
  by its \<^verbatim>\<open>catch\<close>.
\<close>

theorem acknowledgment_error_not_caught:
  "Logged Log_failed \<notin> set (fst (updateOracleValue
       \<lparr>getWasmMetadata = Inr ''meta'', CreateType_create = (\<lambda>m a. Inr ''0x00''),
        decodeAddress = Inr ''0xd4'', calculateGas_handle = (\<lambda>s p. Inr 1000),
        message_send = (\<lambda>m. Inr m), signAndSend = (\<lambda>m. Inr [\<lparr>isError = True\<rparr>])\<rparr>
       \<lparr>upd_id = Fin 7, upd_value = 5\<rparr>))
   \<and> status_runs
       \<lparr>getWasmMetadata = Inr ''meta'', CreateType_create = (\<lambda>m a. Inr ''0x00''),
        decodeAddress = Inr ''0xd4'', calculateGas_handle = (\<lambda>s p. Inr 1000),
        message_send = (\<lambda>m. Inr m), signAndSend = (\<lambda>m. Inr [\<lparr>isError = True\<rparr>])\<rparr>
       \<lparr>upd_id = Fin 7, upd_value = 5\<rparr> = [([], Inl (Error ''Can't send tx''))]
   \<and> (\<forall>e. Logged (Log_failed_with e) \<notin> set (fst (feeder_updateOracleValue
       \<lparr>getWasmMetadata = Inr ''meta'', CreateType_create = (\<lambda>m a. Inr ''0x00''),
        decodeAddress = Inr ''0xd4'', calculateGas_handle = (\<lambda>s p. Inr 1000),
        message_send = (\<lambda>m. Inr m), signAndSend = (\<lambda>m. Inr [\<lparr>isError = True\<rparr>])\<rparr>
       ''0x01'' (Fin 9, \<lparr>randomness = (''a'', ''b''), signature = ''s'', prevSignature = ''p''\<rparr>))))
   \<and> feeder_status_runs
       \<lparr>getWasmMetadata = Inr ''meta'', CreateType_create = (\<lambda>m a. Inr ''0x00''),
        decodeAddress = Inr ''0xd4'', calculateGas_handle = (\<lambda>s p. Inr 1000),
        message_send = (\<lambda>m. Inr m), signAndSend = (\<lambda>m. Inr [\<lparr>isError = True\<rparr>])\<rparr>
       ''0x01'' (Fin 9, \<lparr>randomness = (''a'', ''b''), signature = ''s'', prevSignature = ''p''\<rparr>)
      = [([], Inl (Error ''Can't send tx''))]"
  by (simp add: updateOracleValue_def submit_body_def feeder_updateOracleValue_def feeder_body_def
      send_action_def try_catch_def then_io_def ext_call_def console_log_def return_io_def
      status_runs_def feeder_status_runs_def status_callback_def feeder_status_callback_def
      Let_def)

text \<open>
  Claim C9 at a tick whose fetch fails: the callback of the timer stops at the fetch.
  It prints nothing, it attempts no submission, and the error is its completion: the
  promise of the callback rejects and nothing in the program handles it.
\<close>

theorem failed_fetch_rejects_tick:
  "tick env oracle_address (Inl e) = ([Called Call_fetchRandomValue], Inl e)"
  by (simp add: tick_def then_io_def ext_call_def)

section \<open>The queue snapshot reader\<close>

lemma parseInt_NaN:
  assumes "s = [] \<or> (\<not> is_whitespace (hd s) \<and> hd s \<noteq> of_char CHR ''+''
      \<and> hd s \<noteq> of_char CHR ''-'' \<and> \<not> is_radix_digit 10 (hd s))"
  shows "parseInt s = NaN"
proof (cases s)
  case Nil
  then show ?thesis by (simp add: parseInt_def)
next
  case (Cons a t)
  with assms have a: "\<not> is_whitespace a" "a \<noteq> 43" "a \<noteq> 45" "\<not> is_radix_digit 10 a"
    by simp_all
  have "a \<noteq> 48"
  proof
    assume "a = 48"
    then have "is_radix_digit 10 a" by (simp add: is_radix_digit_def digit_value_def)
    with a(4) show False by simp
  qed
  then have hx: "(take 2 s = js ''0x'') = False" "(take 2 s = js ''0X'') = False"
    using Cons by (cases t; simp add: js_def)+
  have dw: "dropWhile is_whitespace s = s" using a(1) Cons by simp
  have tw: "takeWhile (is_radix_digit 10) s = []" using a(4) Cons by simp
  have h: "(hd s = 45) = False" "(hd s = 43) = False" using a Cons by simp_all
  show ?thesis
    unfolding parseInt_def Let_def dw by (simp add: h hx tw)
qed

lemma parseInt_abc: "parseInt (js ''abc'') = NaN"
  by (rule parseInt_NaN)
    (simp add: js_def is_whitespace_def is_radix_digit_def digit_value_def Let_def)

lemma parseInt_1_234: "parseInt (js ''1,234'') = Fin 1"
  by (simp add: parseInt_def js_def Let_def is_whitespace_def is_radix_digit_def digit_value_def
      digits_value_def to_number_1)

lemma parseInt_nbsp_42: "parseInt (0xA0 # js ''42'') = Fin 42"
  by (simp add: parseInt_def js_def Let_def is_whitespace_def is_radix_digit_def digit_value_def
      digits_value_def to_number_42)

lemma toString_uint_12: "toString_uint 12 = js ''12''"
  by (simp add: toString_uint.simps[of 12] toString_uint.simps[of 1] js_def)

lemma getOracleRequestsQueue_resolved:
  "getOracleRequestsQueue (Inr q) =
     ([Called Call_programState_read],
      Inr (map (\<lambda>(i, c). \<lparr>item_id = parseInt i, item_caller = c\<rparr>) q))"
  by (simp add: getOracleRequestsQueue_def then_io_def ext_call_def return_io_def)

text \<open>
  Claim C6, as the code has it. The reader converts each id with \<^verbatim>\<open>parseInt\<close>, which
  never throws. For every queue that the read returns, the reader returns one item for
  each entry, in order, with the caller unchanged; the id of a decimal numeral up to
  \<open>2 ^ 53\<close> is that integer, and the id is \<open>NaN\<close>, for that item alone, when the string
  is empty or begins with a code unit that is neither white space of ECMAScript, nor a
  sign, nor a decimal digit.
\<close>

theorem queue_reader_never_fails_on_id:
  "\<exists>items. getOracleRequestsQueue (Inr q) = ([Called Call_programState_read], Inr items)
     \<and> length items = length q
     \<and> (\<forall>i<length q.
           item_id (items ! i) = parseInt (fst (q ! i))
           \<and> item_caller (items ! i) = snd (q ! i)
           \<and> (\<forall>n. 0 \<le> n \<and> n \<le> 2 ^ 53 \<and> fst (q ! i) = toString_uint n
                 \<longrightarrow> item_id (items ! i) = Fin (of_int n))
           \<and> (fst (q ! i) = []
                 \<or> (\<not> is_whitespace (hd (fst (q ! i))) \<and> hd (fst (q ! i)) \<noteq> of_char CHR ''+''
                      \<and> hd (fst (q ! i)) \<noteq> of_char CHR ''-'' \<and> \<not> is_radix_digit 10 (hd (fst (q ! i))))
               \<longrightarrow> item_id (items ! i) = NaN))"
proof -
  let ?items = "map (\<lambda>(i, c). \<lparr>item_id = parseInt i, item_caller = c\<rparr>) q"
  have "\<forall>i<length q.
           item_id (?items ! i) = parseInt (fst (q ! i))
           \<and> item_caller (?items ! i) = snd (q ! i)
           \<and> (\<forall>n. 0 \<le> n \<and> n \<le> 2 ^ 53 \<and> fst (q ! i) = toString_uint n
                 \<longrightarrow> item_id (?items ! i) = Fin (of_int n))
           \<and> (fst (q ! i) = []
                 \<or> (\<not> is_whitespace (hd (fst (q ! i))) \<and> hd (fst (q ! i)) \<noteq> of_char CHR ''+''
                      \<and> hd (fst (q ! i)) \<noteq> of_char CHR ''-'' \<and> \<not> is_radix_digit 10 (hd (fst (q ! i))))
               \<longrightarrow> item_id (?items ! i) = NaN)"
  proof (intro allI impI)
    fix i assume i: "i < length q"
    have id: "item_id (?items ! i) = parseInt (fst (q ! i))"
      and c: "item_caller (?items ! i) = snd (q ! i)"
      using i by (simp_all add: case_prod_beta)
    have dec: "\<forall>n. 0 \<le> n \<and> n \<le> 2 ^ 53 \<and> fst (q ! i) = toString_uint n
                 \<longrightarrow> item_id (?items ! i) = Fin (of_int n)"
      unfolding id using parseInt_toString_uint to_number_of_int by auto
    have nan: "fst (q ! i) = []
                 \<or> (\<not> is_whitespace (hd (fst (q ! i))) \<and> hd (fst (q ! i)) \<noteq> of_char CHR ''+''
                      \<and> hd (fst (q ! i)) \<noteq> of_char CHR ''-'' \<and> \<not> is_radix_digit 10 (hd (fst (q ! i))))
               \<longrightarrow> item_id (?items ! i) = NaN"
      unfolding id using parseInt_NaN[of "fst (q ! i)"] by blast
    show "item_id (?items ! i) = parseInt (fst (q ! i))
           \<and> item_caller (?items ! i) = snd (q ! i)
           \<and> (\<forall>n. 0 \<le> n \<and> n \<le> 2 ^ 53 \<and> fst (q ! i) = toString_uint n
                 \<longrightarrow> item_id (?items ! i) = Fin (of_int n))
           \<and> (fst (q ! i) = []
                 \<or> (\<not> is_whitespace (hd (fst (q ! i))) \<and> hd (fst (q ! i)) \<noteq> of_char CHR ''+''
                      \<and> hd (fst (q ! i)) \<noteq> of_char CHR ''-'' \<and> \<not> is_radix_digit 10 (hd (fst (q ! i))))
               \<longrightarrow> item_id (?items ! i) = NaN)"
      using id c dec nan by blast
  qed
  moreover have "length ?items = length q" by simp
  ultimately show ?thesis using getOracleRequestsQueue_resolved[of q] by blast
qed

text \<open>A queue of two entries, a decimal numeral and a word.\<close>

theorem queue_reader_never_fails_on_id_witness:
  "\<exists>items. getOracleRequestsQueue (Inr [(js ''12'', js ''0x02''), (js ''abc'', js ''0x03'')])
       = ([Called Call_programState_read], Inr items)
     \<and> length items = 2
     \<and> item_id (items ! 0) = Fin 12 \<and> item_caller (items ! 0) = js ''0x02''
     \<and> item_id (items ! 1) = NaN \<and> item_caller (items ! 1) = js ''0x03''"
proof -
  let ?q = "[(js ''12'', js ''0x02''), (js ''abc'', js ''0x03'')]"
  from queue_reader_never_fails_on_id[of ?q]
  obtain items where r: "getOracleRequestsQueue (Inr ?q) = ([Called Call_programState_read], Inr items)"
    and l: "length items = length ?q"
    and p: "\<forall>i<length ?q.
           item_id (items ! i) = parseInt (fst (?q ! i))
           \<and> item_caller (items ! i) = snd (?q ! i)
           \<and> (\<forall>n. 0 \<le> n \<and> n \<le> 2 ^ 53 \<and> fst (?q ! i) = toString_uint n
                 \<longrightarrow> item_id (items ! i) = Fin (of_int n))
           \<and> (fst (?q ! i) = []
                 \<or> (\<not> is_whitespace (hd (fst (?q ! i))) \<and> hd (fst (?q ! i)) \<noteq> of_char CHR ''+''
                      \<and> hd (fst (?q ! i)) \<noteq> of_char CHR ''-'' \<and> \<not> is_radix_digit 10 (hd (fst (?q ! i))))
               \<longrightarrow> item_id (items ! i) = NaN)"
    by blast
  have q0: "0 < length ?q" and q1: "1 < length ?q" by simp_all
  note a0 = p[rule_format, OF q0, unfolded nth_Cons_0 fst_conv snd_conv]
    and a1 = p[rule_format, OF q1, unfolded One_nat_def nth_Cons_Suc nth_Cons_0 fst_conv snd_conv]
  from a0 have p0: "item_caller (items ! 0) = js ''0x02''" by blast
  from a0 have "\<forall>n. 0 \<le> n \<and> n \<le> 2 ^ 53 \<and> js ''12'' = toString_uint n
      \<longrightarrow> item_id (items ! 0) = Fin (of_int n)" by blast
  then have "0 \<le> (12::int) \<and> (12::int) \<le> 2 ^ 53 \<and> js ''12'' = toString_uint 12
      \<longrightarrow> item_id (items ! 0) = Fin (of_int 12)" by (rule spec)
  then have i0: "item_id (items ! 0) = Fin 12" by (simp add: toString_uint_12)
  from a1 have p1: "item_caller (items ! Suc 0) = js ''0x03''" by blast
  from a1 have "js ''abc'' = []
      \<or> (\<not> is_whitespace (hd (js ''abc'')) \<and> hd (js ''abc'') \<noteq> of_char CHR ''+''
          \<and> hd (js ''abc'') \<noteq> of_char CHR ''-''
          \<and> \<not> is_radix_digit 10 (hd (js ''abc''))) \<longrightarrow> item_id (items ! Suc 0) = NaN"
    by blast
  then have i1: "item_id (items ! Suc 0) = NaN"
    by (simp add: js_def is_whitespace_def is_radix_digit_def digit_value_def Let_def)
  show ?thesis using r l p0 i0 p1 i1 by simp
qed

text \<open>
  Claim C6 as stated fails: a queue with the ids \<^verbatim>\<open>abc\<close> and \<^verbatim>\<open>1,234\<close> is read without
  a failure; the first id becomes \<open>NaN\<close>, the second 1.
\<close>

theorem queue_reader_counterexample:
  "getOracleRequestsQueue (Inr [(js ''abc'', js ''0x01''), (js ''1,234'', js ''0x02'')]) =
     ([Called Call_programState_read],
      Inr [\<lparr>item_id = NaN, item_caller = js ''0x01''\<rparr>,
           \<lparr>item_id = Fin 1, item_caller = js ''0x02''\<rparr>])"
  by (simp add: getOracleRequestsQueue_resolved parseInt_abc parseInt_1_234)

end
